theory Spec2Isabelle
  imports Main
begin

section \<open>The API layer of the serverless function platform (backend/main.py)\<close>

text \<open>
  The module keeps a global list \<open>functions\<close>, the function registry (field
  \<open>functions'\<close> of the state), and an SQLite connection \<open>conn\<close>, and calls four
  collaborators imported from \<open>run_function_docker\<close>: \<open>run_function\<close>,
  \<open>ensure_docker_images\<close>, \<open>prewarm_containers\<close> and \<open>initialize_database\<close>.
  The collaborators are not part of the module; they are parameters of the model
  (record \<open>externals\<close>) and act on an abstract world \<open>'w\<close>: the container daemon
  and the metrics database.
\<close>

subsection \<open>Python values and exceptions\<close>

text \<open>
  The values \<open>run_function\<close> may hand back.  Python is dynamically typed: the caller
  unpacks and subscripts whatever it receives, and both operations can raise.  Floats are
  carried as mantissa and exponent and are never computed with.  Dictionary keys are
  strings, kept in insertion order.
\<close>

datatype py_val =
    PNone
  | PBool bool
  | PInt int
  | PFloat int int
  | PStr string
  | PTuple "py_val list"
  | PList "py_val list"
  | PDict "(string \<times> py_val) list"

text \<open>
  Exception classes, as far as the \<open>except\<close> clauses of the module tell them apart.
  A subclass counts as the class named here that it derives from; \<open>OtherException\<close> is
  any other subclass of \<open>Exception\<close>, \<open>OtherBaseException\<close> any exception that is
  not an \<open>Exception\<close> (\<open>KeyboardInterrupt\<close>, \<open>SystemExit\<close>).  An exception object is
  its class and the text that \<open>str(e)\<close> gives.
\<close>

datatype exn_class =
    CalledProcessError
  | FileNotFoundError
  | RuntimeError
  | ValueError
  | KeyError
  | AttributeError
  | TypeError
  | sqlite3_Error
  | OtherException
  | OtherBaseException

datatype py_exn = PyExn exn_class string

fun exn_cls :: "py_exn \<Rightarrow> exn_class" where
  "exn_cls (PyExn c m) = c"

fun str_exn :: "py_exn \<Rightarrow> string" where
  "str_exn (PyExn c m) = m"

text \<open>
  What leaves an endpoint instead of a return value: an \<open>HTTPException\<close> raised by the
  endpoint itself (status code and detail), or an exception that nothing in the endpoint
  catches.
\<close>

datatype endpoint_error =
    HTTPException nat string
  | Uncaught py_exn

fun status_code :: "endpoint_error + 'a \<Rightarrow> nat option" where
  "status_code (Inl (HTTPException s d)) = Some s"
| "status_code (Inl (Uncaught e)) = None"
| "status_code (Inr r) = None"

text \<open>A name between single quotes, as the interpreter prints it in a message.\<close>

definition quoted :: "string \<Rightarrow> string" where
  "quoted n = [CHR 0x27] @ n @ [CHR 0x27]"

text \<open>The name of a value's type, as the interpreter prints it in a \<open>TypeError\<close>.\<close>

fun type_name :: "py_val \<Rightarrow> string" where
  "type_name PNone = ''NoneType''"
| "type_name (PBool b) = ''bool''"
| "type_name (PInt i) = ''int''"
| "type_name (PFloat m e) = ''float''"
| "type_name (PStr s) = ''str''"
| "type_name (PTuple xs) = ''tuple''"
| "type_name (PList xs) = ''list''"
| "type_name (PDict kvs) = ''dict''"

text \<open>
  Iterating a value: the items of a tuple or list, the characters of a string, the keys
  of a dictionary; \<open>None\<close> for a value that is not iterable.
\<close>

fun iter_items :: "py_val \<Rightarrow> py_val list option" where
  "iter_items (PTuple xs) = Some xs"
| "iter_items (PList xs) = Some xs"
| "iter_items (PStr s) = Some (map (\<lambda>c. PStr [c]) s)"
| "iter_items (PDict kvs) = Some (map (\<lambda>kv. PStr (fst kv)) kvs)"
| "iter_items v = None"

text \<open>
  The assignment \<open>a, b = v\<close>: \<open>TypeError\<close> when \<open>v\<close> is not iterable,
  \<open>ValueError\<close> when it does not yield exactly two items.
\<close>

definition unpack2 :: "py_val \<Rightarrow> py_exn + (py_val \<times> py_val)" where
  "unpack2 v =
     (case iter_items v of
        None \<Rightarrow> Inl (PyExn TypeError (''cannot unpack non-iterable '' @ type_name v @ '' object''))
      | Some items \<Rightarrow>
          (case items of
             [a, b] \<Rightarrow> Inr (a, b)
           | _ \<Rightarrow>
               if length items = 0
               then Inl (PyExn ValueError ''not enough values to unpack (expected 2, got 0)'')
               else if length items = 1
               then Inl (PyExn ValueError ''not enough values to unpack (expected 2, got 1)'')
               else Inl (PyExn ValueError ''too many values to unpack (expected 2)'')))"

text \<open>
  The subscription \<open>v[k]\<close> with a string key: a dictionary looks the key up and raises
  \<open>KeyError\<close> when it is missing (\<open>str(e)\<close> is the key in quotes); every other
  value raises \<open>TypeError\<close>.  The message texts are those of CPython 3.10; they differ
  between versions, and no statement below depends on them.
\<close>

fun subscript :: "py_val \<Rightarrow> string \<Rightarrow> py_exn + py_val" where
  "subscript (PDict kvs) k =
     (case map_of kvs k of
        None \<Rightarrow> Inl (PyExn KeyError (quoted k))
      | Some x \<Rightarrow> Inr x)"
| "subscript (PStr s) k = Inl (PyExn TypeError ''string indices must be integers'')"
| "subscript (PTuple xs) k = Inl (PyExn TypeError ''tuple indices must be integers or slices, not str'')"
| "subscript (PList xs) k = Inl (PyExn TypeError ''list indices must be integers or slices, not str'')"
| "subscript v k = Inl (PyExn TypeError (quoted (type_name v) @ '' object is not subscriptable''))"

subsection \<open>The registry entries\<close>

text \<open>
  \<open>Function\<close> is the request model; \<open>function.dict()\<close> with the key \<open>id\<close> added is
  what the registry stores (\<open>function_data\<close>).  \<open>settings\<close> is
  \<open>Optional[Dict[str, str]]\<close>: \<open>None\<close> or a dictionary.
\<close>

record Function =
  name :: string
  route :: string
  language :: string
  timeout :: int
  runtime :: string
  settings :: "(string \<rightharpoonup> string) option"

record function_data = Function +
  ident :: int

definition with_id :: "Function \<Rightarrow> int \<Rightarrow> function_data" where
  "with_id f n =
     \<lparr>name = name f, route = route f, language = language f, timeout = timeout f,
      runtime = runtime f, settings = settings f, ident = n\<rparr>"

subsection \<open>The collaborators and the state\<close>

text \<open>One row of the query of \<open>get_function_metrics\<close>: six selected columns.\<close>

record metrics_row =
  row_response_time :: py_val
  row_error :: py_val
  row_stdout :: py_val
  row_stderr :: py_val
  row_memory_usage :: py_val
  row_cpu_usage :: py_val

text \<open>
  \<open>run_function_docker\<close> is not among the sources.  Its functions are given the
  arguments written at each call and the world; what they return or raise is left open.
  The registry is kept apart from the world, which is an assumption of this model:
  nothing in the module hands the registry to a collaborator.

  Each collaborator takes the world and returns what it raised or returned, and the
  world it leaves.  \<open>docker_info\<close> is \<open>subprocess.run(["docker", "info"], check=True, ...)\<close>;
  \<open>select_latest_metrics\<close> is the \<open>SELECT ... ORDER BY rowid DESC LIMIT 1\<close> with
  \<open>fetchone()\<close>, which reads the database and does not change it.
\<close>

record 'w externals =
  docker_info :: "'w \<Rightarrow> (py_exn + unit) \<times> 'w"
  initialize_database :: "'w \<Rightarrow> (py_exn + unit) \<times> 'w"
  ensure_docker_images :: "'w \<Rightarrow> (py_exn + unit) \<times> 'w"
  prewarm_containers :: "string \<Rightarrow> string \<Rightarrow> 'w \<Rightarrow> (py_exn + unit) \<times> 'w"
  run_function :: "string \<Rightarrow> string \<Rightarrow> int \<Rightarrow> string \<Rightarrow> string \<Rightarrow> 'w \<Rightarrow> (py_exn + py_val) \<times> 'w"
  select_latest_metrics :: "string \<Rightarrow> 'w \<Rightarrow> py_exn + metrics_row option"

text \<open>
  The calls made to the collaborators are recorded, in order, in the field \<open>calls\<close>
  of the state; the source has no such list, it is there so that "the engine is (not)
  invoked" can be stated.
\<close>

datatype call =
    DockerInfo
  | InitializeDatabase
  | EnsureDockerImages
  | PrewarmContainers string string
  | RunFunction string string int string string
  | SelectLatestMetrics string

text \<open>
  \<open>printed\<close> holds the lines that \<open>startup_event\<close> prints.  The \<open>print\<close> calls of the
  endpoints format whole dictionaries and are left out of the model.
\<close>

record 'w state =
  functions' :: "function_data list"
  world :: "'w"
  calls :: "call list"
  printed :: "string list"

definition call_ext :: "call \<Rightarrow> ('w \<Rightarrow> 'r \<times> 'w) \<Rightarrow> 'w state \<Rightarrow> 'r \<times> 'w state" where
  "call_ext c f s =
     (case f (world s) of
        (r, w') \<Rightarrow> (r, s\<lparr>world := w', calls := calls s @ [c]\<rparr>))"

definition print_line :: "string \<Rightarrow> 'w state \<Rightarrow> 'w state" where
  "print_line l s = s\<lparr>printed := printed s @ [l]\<rparr>"

subsection \<open>Responses\<close>

text \<open>One side of the comparison that \<open>compare_performance\<close> returns.\<close>

record comparison_side =
  response_time :: py_val
  memory_usage :: py_val
  cpu_usage :: py_val
  output' :: py_val

text \<open>The value an endpoint returns, one constructor per endpoint.\<close>

datatype response =
    Created int
  | AllFunctions "function_data list"
  | OneFunction function_data
  | Updated function_data
  | Deleted
  | Output py_val
  | Metrics metrics_row
  | Comparison comparison_side comparison_side

subsection \<open>The registry endpoints\<close>

definition create_function :: "Function \<Rightarrow> 'w state \<Rightarrow> (endpoint_error + response) \<times> 'w state" where
  "create_function function s =
     (let func_id = int (length (functions' s)) + 1;
          function_data = with_id function func_id
      in (Inr (Created func_id), s\<lparr>functions' := functions' s @ [function_data]\<rparr>))"

definition get_all_functions :: "'w state \<Rightarrow> (endpoint_error + response) \<times> 'w state" where
  "get_all_functions s = (Inr (AllFunctions (functions' s)), s)"

definition get_function :: "int \<Rightarrow> 'w state \<Rightarrow> (endpoint_error + response) \<times> 'w state" where
  "get_function func_id s =
     (if func_id > int (length (functions' s)) \<or> func_id \<le> 0
      then (Inl (HTTPException 404 ''Function not found''), s)
      else (Inr (OneFunction (functions' s ! nat (func_id - 1))), s))"

definition update_function :: "int \<Rightarrow> Function \<Rightarrow> 'w state \<Rightarrow> (endpoint_error + response) \<times> 'w state" where
  "update_function func_id function s =
     (if func_id > int (length (functions' s)) \<or> func_id \<le> 0
      then (Inl (HTTPException 404 ''Function not found''), s)
      else
        (let updated_function = with_id function func_id
         in (Inr (Updated updated_function),
             s\<lparr>functions' := (functions' s)[nat (func_id - 1) := updated_function]\<rparr>)))"

text \<open>\<open>functions.pop(i)\<close> with \<open>i\<close> in range removes the entry at index \<open>i\<close>.\<close>

definition pop_at :: "'a list \<Rightarrow> nat \<Rightarrow> 'a list" where
  "pop_at xs i = take i xs @ drop (Suc i) xs"

definition delete_function :: "int \<Rightarrow> 'w state \<Rightarrow> (endpoint_error + response) \<times> 'w state" where
  "delete_function func_id s =
     (if func_id > int (length (functions' s)) \<or> func_id \<le> 0
      then (Inl (HTTPException 404 ''Function not found''), s)
      else (Inr Deleted, s\<lparr>functions' := pop_at (functions' s) (nat (func_id - 1))\<rparr>))"

subsection \<open>Running a function\<close>

text \<open>
  \<open>function.get("settings", {}).get("code")\<close>: the key \<open>settings\<close> is always present
  in a stored entry, so the default is never used; when its value is \<open>None\<close> the second
  \<open>get\<close> raises \<open>AttributeError\<close>.
\<close>

definition get_code :: "function_data \<Rightarrow> py_exn + string option" where
  "get_code function =
     (case settings function of
        None \<Rightarrow>
          Inl (PyExn AttributeError (quoted ''NoneType'' @ '' object has no attribute '' @ quoted ''get''))
      | Some d \<Rightarrow> Inr (d ''code''))"

text \<open>\<open>not code\<close>: the code is \<open>None\<close> or the empty string.\<close>

fun not_code :: "string option \<Rightarrow> bool" where
  "not_code None = True"
| "not_code (Some c) = (c = [])"

text \<open>
  The \<open>except\<close> clauses of \<open>run_function_endpoint\<close>: \<open>ValueError\<close> becomes status
  400, any other \<open>Exception\<close> status 500, anything else passes through.
\<close>

definition run_except :: "py_exn \<Rightarrow> endpoint_error" where
  "run_except e =
     (if exn_cls e = ValueError then HTTPException 400 (str_exn e)
      else if exn_cls e \<noteq> OtherBaseException
      then HTTPException 500 (''Execution failed: '' @ str_exn e)
      else Uncaught e)"

definition run_function_endpoint ::
  "'w externals \<Rightarrow> int \<Rightarrow> 'w state \<Rightarrow> (endpoint_error + response) \<times> 'w state" where
  "run_function_endpoint ext func_id s =
     (if func_id > int (length (functions' s)) \<or> func_id \<le> 0
      then (Inl (HTTPException 404 ''Function not found''), s)
      else
        (let function = functions' s ! nat (func_id - 1)
         in case get_code function of
              Inl e \<Rightarrow> (Inl (Uncaught e), s)
            | Inr code \<Rightarrow>
                if not_code code
                then (Inl (HTTPException 400 ''No code provided in function settings''), s)
                else
                  (case call_ext
                          (RunFunction (the code) (language function) (timeout function)
                             (runtime function) (name function))
                          (run_function ext (the code) (language function) (timeout function)
                             (runtime function) (name function)) s of
                     (Inl e, s') \<Rightarrow> (Inl (run_except e), s')
                   | (Inr v, s') \<Rightarrow>
                       (case unpack2 v of
                          Inl e \<Rightarrow> (Inl (run_except e), s')
                        | Inr (out, _) \<Rightarrow> (Inr (Output out), s')))))"

subsection \<open>The latest metrics of a function\<close>

definition get_function_metrics ::
  "'w externals \<Rightarrow> int \<Rightarrow> 'w state \<Rightarrow> (endpoint_error + response) \<times> 'w state" where
  "get_function_metrics ext func_id s =
     (if func_id > int (length (functions' s)) \<or> func_id \<le> 0
      then (Inl (HTTPException 404 ''Function not found''), s)
      else
        (let function = functions' s ! nat (func_id - 1);
             function_name = name function;
             s' = s\<lparr>calls := calls s @ [SelectLatestMetrics function_name]\<rparr>
         in case select_latest_metrics ext function_name (world s) of
              Inl e \<Rightarrow>
                if exn_cls e = sqlite3_Error
                then (Inl (HTTPException 500 (''Failed to retrieve metrics: '' @ str_exn e)), s')
                else (Inl (Uncaught e), s')
            | Inr None \<Rightarrow>
                (Inl (HTTPException 404 (''No metrics found for function '' @ function_name)), s')
            | Inr (Some result) \<Rightarrow> (Inr (Metrics result), s')))"

subsection \<open>Comparing the two runtimes\<close>

text \<open>
  One side of the dictionary \<open>comparison\<close>: three subscriptions of the metrics, in the
  order written, and the output.
\<close>

definition side_of :: "py_val \<Rightarrow> py_val \<Rightarrow> py_exn + comparison_side" where
  "side_of out metrics =
     (case subscript metrics ''response_time'' of
        Inl e \<Rightarrow> Inl e
      | Inr rt \<Rightarrow>
          (case subscript metrics ''memory_usage'' of
             Inl e \<Rightarrow> Inl e
           | Inr mu \<Rightarrow>
               (case subscript metrics ''cpu_usage'' of
                  Inl e \<Rightarrow> Inl e
                | Inr cu \<Rightarrow>
                    Inr \<lparr>response_time = rt, memory_usage = mu, cpu_usage = cu, output' = out\<rparr>)))"

text \<open>
  One statement \<open>out, metrics = run_function(code, language, timeout, rt, name, conn)\<close>
  of \<open>compare_performance\<close>, which has no \<open>try\<close> around it.
\<close>

definition run_and_unpack ::
  "'w externals \<Rightarrow> string \<Rightarrow> function_data \<Rightarrow> string \<Rightarrow> 'w state \<Rightarrow> (py_exn + (py_val \<times> py_val)) \<times> 'w state" where
  "run_and_unpack ext code function rt s =
     (case call_ext
             (RunFunction code (language function) (timeout function) rt (name function))
             (run_function ext code (language function) (timeout function) rt (name function)) s of
        (Inl e, s') \<Rightarrow> (Inl e, s')
      | (Inr v, s') \<Rightarrow> (unpack2 v, s'))"

definition compare_performance ::
  "'w externals \<Rightarrow> int \<Rightarrow> 'w state \<Rightarrow> (endpoint_error + response) \<times> 'w state" where
  "compare_performance ext func_id s =
     (if func_id > int (length (functions' s)) \<or> func_id \<le> 0
      then (Inl (HTTPException 404 ''Function not found''), s)
      else
        (let function = functions' s ! nat (func_id - 1)
         in case get_code function of
              Inl e \<Rightarrow> (Inl (Uncaught e), s)
            | Inr code \<Rightarrow>
                if not_code code
                then (Inl (HTTPException 400 ''No code provided in function settings''), s)
                else
                  (case run_and_unpack ext (the code) function ''runc'' s of
                     (Inl e, s1) \<Rightarrow> (Inl (Uncaught e), s1)
                   | (Inr (runc_output, runc_metrics), s1) \<Rightarrow>
                       (case run_and_unpack ext (the code) function ''runsc'' s1 of
                          (Inl e, s2) \<Rightarrow> (Inl (Uncaught e), s2)
                        | (Inr (runsc_output, runsc_metrics), s2) \<Rightarrow>
                            (case side_of runc_output runc_metrics of
                               Inl e \<Rightarrow> (Inl (Uncaught e), s2)
                             | Inr runc_side \<Rightarrow>
                                 (case side_of runsc_output runsc_metrics of
                                    Inl e \<Rightarrow> (Inl (Uncaught e), s2)
                                  | Inr runsc_side \<Rightarrow>
                                      (Inr (Comparison runc_side runsc_side), s2)))))))"

subsection \<open>Startup\<close>

text \<open>The four \<open>prewarm_containers\<close> calls, in the order written.\<close>

definition prewarm_pairs :: "(string \<times> string) list" where
  "prewarm_pairs =
     [(''python'', ''runc''), (''python'', ''runsc''), (''node'', ''runc''), (''node'', ''runsc'')]"

text \<open>Calls in sequence; the first exception ends the sequence.\<close>

fun prewarm_each :: "'w externals \<Rightarrow> (string \<times> string) list \<Rightarrow> 'w state \<Rightarrow> (py_exn + unit) \<times> 'w state" where
  "prewarm_each ext [] s = (Inr (), s)"
| "prewarm_each ext ((lang, rt) # ps) s =
     (case call_ext (PrewarmContainers lang rt) (prewarm_containers ext lang rt) s of
        (Inl e, s') \<Rightarrow> (Inl e, s')
      | (Inr u, s') \<Rightarrow> prewarm_each ext ps s')"

text \<open>The body of the second \<open>try\<close> of \<open>startup_event\<close>.\<close>

definition startup_try :: "'w externals \<Rightarrow> 'w state \<Rightarrow> (py_exn + unit) \<times> 'w state" where
  "startup_try ext s =
     (case call_ext InitializeDatabase (initialize_database ext) s of
        (Inl e, s1) \<Rightarrow> (Inl e, s1)
      | (Inr u, s1) \<Rightarrow>
          (case call_ext EnsureDockerImages (ensure_docker_images ext)
                  (print_line ''Database schema verified and initialized.'' s1) of
             (Inl e, s2) \<Rightarrow> (Inl e, s2)
           | (Inr u, s2) \<Rightarrow>
               (case prewarm_each ext prewarm_pairs (print_line ''Docker images ensured.'' s2) of
                  (Inl e, s3) \<Rightarrow> (Inl e, s3)
                | (Inr u, s3) \<Rightarrow> (Inr (), print_line ''Pre-warming containers completed.'' s3))))"

text \<open>Its \<open>except\<close> clauses, tried in the order written.\<close>

definition startup_except :: "py_exn \<Rightarrow> 'w state \<Rightarrow> (py_exn + unit) \<times> 'w state" where
  "startup_except e s =
     (if exn_cls e = FileNotFoundError then (Inl (PyExn RuntimeError (str_exn e)), s)
      else if exn_cls e = RuntimeError
      then (Inl (PyExn RuntimeError (''Docker image build failed: '' @ str_exn e)), s)
      else if exn_cls e \<noteq> OtherBaseException
      then (Inl (PyExn RuntimeError (''Startup failed: '' @ str_exn e)),
            print_line (''Startup error: '' @ str_exn e) s)
      else (Inl e, s))"

definition startup_event :: "'w externals \<Rightarrow> 'w state \<Rightarrow> (py_exn + unit) \<times> 'w state" where
  "startup_event ext s =
     (case call_ext DockerInfo (docker_info ext) (print_line ''Starting up FastAPI server...'' s) of
        (Inl e, s0) \<Rightarrow>
          if exn_cls e = CalledProcessError
          then (Inl (PyExn RuntimeError ''Docker is not running or accessible.''), s0)
          else (Inl e, s0)
      | (Inr u, s0) \<Rightarrow>
          (case startup_try ext (print_line ''Docker is running and accessible.'' s0) of
             (Inl e, s1) \<Rightarrow> startup_except e s1
           | (Inr u, s1) \<Rightarrow> (Inr (), s1)))"

subsection \<open>Predicates used in the statements\<close>

text \<open>The test that every per-function endpoint starts with.\<close>

definition not_found :: "'w state \<Rightarrow> int \<Rightarrow> bool" where
  "not_found s func_id = (func_id > int (length (functions' s)) \<or> func_id \<le> 0)"

text \<open>The record of one \<open>prewarm_containers\<close> call in \<open>calls\<close>.\<close>

definition prewarm_call :: "string \<times> string \<Rightarrow> call" where
  "prewarm_call p = PrewarmContainers (fst p) (snd p)"

section \<open>Sample collaborators and registries\<close>

text \<open>
  Concrete collaborators over a world that counts the calls made to them, for evaluating
  the endpoints.  \<open>ext_ok\<close> never raises: \<open>run_function\<close> returns the pair
  (output, metrics), the database has no metrics row.
\<close>

definition sample_metrics :: py_val where
  "sample_metrics =
     PDict [(''response_time'', PFloat 3 2), (''memory_usage'', PFloat 5 3), (''cpu_usage'', PFloat 1 0),
            (''error'', PInt 0), (''stdout'', PStr ''2''), (''stderr'', PStr [])]"

definition ext_ok :: "nat externals" where
  "ext_ok =
     \<lparr>docker_info = (\<lambda>w. (Inr (), Suc w)),
      initialize_database = (\<lambda>w. (Inr (), Suc w)),
      ensure_docker_images = (\<lambda>w. (Inr (), Suc w)),
      prewarm_containers = (\<lambda>lang rt w. (Inr (), Suc w)),
      run_function = (\<lambda>code lang t rt n w. (Inr (PTuple [PStr ''2'', sample_metrics]), Suc w)),
      select_latest_metrics = (\<lambda>n w. Inr None)\<rparr>"

text \<open>\<open>run_function\<close> raises under the runtime \<open>bad\<close> and returns under any other.\<close>

definition ext_run_raises :: "string \<Rightarrow> nat externals" where
  "ext_run_raises bad =
     ext_ok\<lparr>run_function :=
       (\<lambda>code lang t rt n w.
          if rt = bad then (Inl (PyExn OtherException ''container failed''), Suc w)
          else (Inr (PTuple [PStr ''2'', sample_metrics]), Suc w))\<rparr>"

text \<open>\<open>ensure_docker_images\<close> raises \<open>RuntimeError\<close>.\<close>

definition ext_build_fails :: "nat externals" where
  "ext_build_fails =
     ext_ok\<lparr>ensure_docker_images :=
       (\<lambda>w. (Inl (PyExn RuntimeError ''build failed for node/runsc''), Suc w))\<rparr>"

text \<open>\<open>prewarm_containers\<close> raises for the pair (python, runsc) and returns for the others.\<close>

definition ext_prewarm_fails :: "nat externals" where
  "ext_prewarm_fails =
     ext_ok\<lparr>prewarm_containers :=
       (\<lambda>lang rt w.
          if lang = ''python'' \<and> rt = ''runsc''
          then (Inl (PyExn OtherException ''container did not start''), Suc w)
          else (Inr (), Suc w))\<rparr>"

definition fn_add :: Function where
  "fn_add =
     \<lparr>name = ''add'', route = ''/add'', language = ''python'', timeout = 5, runtime = ''runc'',
      settings = Some [''code'' \<mapsto> ''print(1+1)'']\<rparr>"

definition fn_nocode :: Function where
  "fn_nocode =
     \<lparr>name = ''empty'', route = ''/empty'', language = ''node'', timeout = 5, runtime = ''runsc'',
      settings = Some Map.empty\<rparr>"

definition state0 :: "nat state" where
  "state0 = \<lparr>functions' = [], world = 0, calls = [], printed = []\<rparr>"

text \<open>The registry after \<open>fn_add\<close> and \<open>fn_nocode\<close> were created, in this order.\<close>

definition state2 :: "nat state" where
  "state2 = snd (create_function fn_nocode (snd (create_function fn_add state0)))"

section \<open>The execution engine as the specification describes it\<close>

text \<open>
  The engine behind \<open>run_function\<close> and \<open>prewarm_containers\<close> (the module
  \<open>run_function_docker\<close>: pool manager and execution orchestrator) is not among the
  sources.  This section models it from the specification, sections 3, 4.2, 4.3 and 7,
  for the statements that are about the engine itself.  Image provisioning and the
  sampling of memory and cpu are left out.
\<close>

subsection \<open>Data model\<close>

text \<open>Modelled from the spec: a PoolKey is a (language, sandbox backend) pair.\<close>

type_synonym pool_key = "string \<times> string"

text \<open>
  Modelled from the spec: the lifecycle of a ContainerSlot,
  \<open>Provisioning \<rightarrow> Idle \<rightarrow> Busy \<rightarrow> {Idle, Destroying}\<close>, with \<open>Destroying\<close> terminal.
\<close>

datatype lifecycle = Provisioning | Idle | Busy | Destroying

text \<open>
  Modelled from the spec: a ContainerSlot has a backend-assigned identity, a language,
  a sandbox-backend tag and a lifecycle state; \<open>slot_uses\<close> counts its executions, for
  the reuse budget.
\<close>

record container_slot =
  slot_id :: nat
  slot_language :: string
  slot_backend :: string
  slot_state :: lifecycle
  slot_uses :: nat

definition slot_key :: "container_slot \<Rightarrow> pool_key" where
  "slot_key s = (slot_language s, slot_backend s)"

text \<open>
  Modelled from the spec: PoolConfig gives, per key, the minimum idle count, the maximum
  total of containers and the reuse budget (as a maximum number of executions; the
  maximum idle age is real time and is left out).
\<close>

record pool_config =
  min_idle :: "pool_key \<Rightarrow> nat"
  max_total :: "pool_key \<Rightarrow> nat"
  reuse_budget :: "pool_key \<Rightarrow> nat"

text \<open>
  Modelled from the spec: the failure kinds of section 7.
\<close>

datatype failure_kind =
    ImageBuildError
  | PoolExhausted
  | ContainerStartError
  | TimeoutError
  | RuntimeExecutionError
  | SamplingError

text \<open>
  Modelled from the spec: what the engine asks of the container runtime (start a
  container, inject and run code in it, forcibly terminate its process, destroy it),
  recorded in order.
\<close>

datatype runtime_action = Start nat | Inject nat string | Kill nat | Destroy nat

text \<open>
  Modelled from the spec: the state of the pool manager.  \<open>idle_slots\<close> holds the
  idle slots of all keys in the order they became idle; the idle queue of one key is the
  sublist of its slots.  \<open>busy_slots\<close> holds each checked-out slot with the caller that
  owns it, \<open>destroying_slots\<close> the slots scheduled for destruction.  The container
  runtime assigns identities; \<open>next_id\<close> is the identity of the next container.
\<close>

record pool =
  idle_slots :: "container_slot list"
  busy_slots :: "(nat \<times> container_slot) list"
  destroying_slots :: "container_slot list"
  next_id :: nat
  actions :: "runtime_action list"

definition empty_pool :: pool where
  "empty_pool =
     \<lparr>idle_slots = [], busy_slots = [], destroying_slots = [], next_id = 0, actions = []\<rparr>"

definition idle_queue :: "pool \<Rightarrow> pool_key \<Rightarrow> container_slot list" where
  "idle_queue p key = filter (\<lambda>s. slot_key s = key) (idle_slots p)"

definition busy_of :: "pool \<Rightarrow> pool_key \<Rightarrow> container_slot list" where
  "busy_of p key = filter (\<lambda>s. slot_key s = key) (map snd (busy_slots p))"

definition total_for :: "pool \<Rightarrow> pool_key \<Rightarrow> nat" where
  "total_for p key = length (idle_queue p key) + length (busy_of p key)"

subsection \<open>Pool manager\<close>

text \<open>
  Modelled from the spec: starting a container for a key; the runtime gives it a fresh
  identity.
\<close>

definition start_container :: "pool_key \<Rightarrow> lifecycle \<Rightarrow> pool \<Rightarrow> container_slot \<times> pool" where
  "start_container key st p =
     (\<lparr>slot_id = next_id p, slot_language = fst key, slot_backend = snd key,
       slot_state = st, slot_uses = 0\<rparr>,
      p\<lparr>next_id := Suc (next_id p), actions := actions p @ [Start (next_id p)]\<rparr>)"

definition enqueue_new :: "pool_key \<Rightarrow> pool \<Rightarrow> pool" where
  "enqueue_new key p =
     (case start_container key Idle p of
        (s, p') \<Rightarrow> p'\<lparr>idle_slots := idle_slots p' @ [s]\<rparr>)"

text \<open>
  Modelled from the spec: \<open>prewarm(key, n)\<close> brings the idle queue of \<open>key\<close> up to
  \<open>n\<close> ready containers, best-effort: a start that fails is skipped.  \<open>outcomes\<close>
  says, for each start attempted, whether it succeeds.
\<close>

fun prewarm_starts :: "pool_key \<Rightarrow> bool list \<Rightarrow> pool \<Rightarrow> pool" where
  "prewarm_starts key [] p = p"
| "prewarm_starts key (ok # oks) p =
     prewarm_starts key oks (if ok then enqueue_new key p else p)"

definition prewarm :: "pool_key \<Rightarrow> nat \<Rightarrow> bool list \<Rightarrow> pool \<Rightarrow> pool" where
  "prewarm key n outcomes p =
     prewarm_starts key (take (n - length (idle_queue p key)) outcomes) p"

text \<open>
  Modelled from the spec: \<open>checkout(key)\<close> pops one idle slot; if the queue is empty
  it starts a new container, provided the limit of the key is not reached, and otherwise
  returns the resource-exhaustion error (the blocking policy is real time and is left
  out).  A container start is retried once (\<open>starts\<close> gives the outcome of each
  attempt), then \<open>ContainerStartError\<close> is surfaced.
\<close>

definition checkout ::
  "pool_config \<Rightarrow> pool_key \<Rightarrow> nat \<Rightarrow> bool list \<Rightarrow> pool \<Rightarrow> failure_kind + (container_slot \<times> pool)" where
  "checkout cfg key caller starts p =
     (case idle_queue p key of
        s # rest \<Rightarrow>
          (let b = s\<lparr>slot_state := Busy\<rparr>
           in Inr (b, p\<lparr>idle_slots := remove1 s (idle_slots p),
                        busy_slots := busy_slots p @ [(caller, b)]\<rparr>))
      | [] \<Rightarrow>
          if total_for p key < max_total cfg key
          then
            (if True \<in> set (take 2 starts)
             then
               (case start_container key Busy p of
                  (b, p') \<Rightarrow> Inr (b, p'\<lparr>busy_slots := busy_slots p' @ [(caller, b)]\<rparr>))
             else Inl ContainerStartError)
          else Inl PoolExhausted)"

text \<open>
  Modelled from the spec: \<open>checkin(slot, healthy)\<close> returns a healthy slot that is
  under its reuse budget to the idle queue and schedules any other slot for destruction.
\<close>

definition checkin :: "pool_config \<Rightarrow> container_slot \<Rightarrow> bool \<Rightarrow> pool \<Rightarrow> pool" where
  "checkin cfg slot healthy p =
     (let others = filter (\<lambda>cb. slot_id (snd cb) \<noteq> slot_id slot) (busy_slots p);
          used = slot\<lparr>slot_uses := Suc (slot_uses slot)\<rparr>
      in if healthy \<and> slot_uses used < reuse_budget cfg (slot_key slot)
         then p\<lparr>busy_slots := others, idle_slots := idle_slots p @ [used\<lparr>slot_state := Idle\<rparr>]\<rparr>
         else p\<lparr>busy_slots := others,
                destroying_slots := destroying_slots p @ [used\<lparr>slot_state := Destroying\<rparr>]\<rparr>)"

text \<open>
  Modelled from the spec: the replenishment scheduled when the idle count of a key is
  below its configured minimum starts one container for the key; \<open>ok\<close> says whether
  the start succeeds.
\<close>

definition replenish :: "pool_config \<Rightarrow> pool_key \<Rightarrow> bool \<Rightarrow> pool \<Rightarrow> pool" where
  "replenish cfg key ok p =
     (if length (idle_queue p key) < min_idle cfg key \<and> ok then enqueue_new key p else p)"

text \<open>Modelled from the spec: the destruction of a slot scheduled for it removes the slot.\<close>

definition destroy_slot :: "container_slot \<Rightarrow> pool \<Rightarrow> pool" where
  "destroy_slot s p =
     p\<lparr>destroying_slots := remove1 s (destroying_slots p),
       actions := actions p @ [Destroy (slot_id s)]\<rparr>"

subsection \<open>Execution orchestrator\<close>

text \<open>
  Modelled from the spec: an ExecutionRequest is code, language, timeout in seconds,
  sandbox backend and function name.
\<close>

record execution_request =
  req_code :: string
  req_language :: string
  req_timeout :: nat
  req_backend :: string
  req_function_name :: string

text \<open>
  Modelled from the spec: ExecutionResult and MetricsRecord (without peak memory and cpu
  usage, which the sampler would fill in).
\<close>

record execution_result =
  result_output :: string
  result_stdout :: string
  result_stderr :: string
  result_success :: bool
  result_failure :: "failure_kind option"

record metrics_record =
  response_time_ms :: nat
  error_flag :: bool
  metrics_stdout :: string
  metrics_stderr :: string

text \<open>
  Modelled from the spec: what the injected code does in the container, left alone: it
  runs for \<open>run_duration_ms\<close> milliseconds (\<open>None\<close>: it never ends) and exits with
  \<open>exit_status\<close>; \<open>streamed t\<close> is the stdout and stderr it has produced after \<open>t\<close>
  milliseconds.
\<close>

record run_behaviour =
  run_duration_ms :: "nat option"
  exit_status :: int
  streamed :: "nat \<Rightarrow> string \<times> string"

text \<open>The code runs longer than a timeout of \<open>t\<close> seconds.\<close>

definition runs_longer :: "run_behaviour \<Rightarrow> nat \<Rightarrow> bool" where
  "runs_longer b t =
     (case run_duration_ms b of None \<Rightarrow> True | Some d \<Rightarrow> t * 1000 < d)"

text \<open>
  Modelled from the spec: steps 1 and 2 of \<open>execute\<close>: check out a slot for (language,
  backend), failing at once on exhaustion, and inject the code.
\<close>

definition begin_execution ::
  "pool_config \<Rightarrow> nat \<Rightarrow> execution_request \<Rightarrow> bool list \<Rightarrow> pool \<Rightarrow> failure_kind + (container_slot \<times> pool)" where
  "begin_execution cfg caller req starts p =
     (case checkout cfg (req_language req, req_backend req) caller starts p of
        Inl k \<Rightarrow> Inl k
      | Inr (slot, p1) \<Rightarrow>
          Inr (slot, p1\<lparr>actions := actions p1 @ [Inject (slot_id slot) (req_code req)]\<rparr>))"

text \<open>
  Modelled from the spec: steps 4, 5 and 7 of \<open>execute\<close>.  If the process completes
  before the timeout, exit status zero is success and any other status a
  \<open>RuntimeExecutionError\<close>, and the slot is checked in as healthy.  If the wait expires
  first, the process is forcibly terminated, the result is a \<open>TimeoutError\<close> and the
  slot is checked in as not healthy.  The response time runs from the injection to the
  completion or the forced termination.
\<close>

definition finish_execution ::
  "pool_config \<Rightarrow> container_slot \<Rightarrow> execution_request \<Rightarrow> run_behaviour \<Rightarrow> pool
     \<Rightarrow> execution_result \<times> metrics_record \<times> pool" where
  "finish_execution cfg slot req b p =
     (if runs_longer b (req_timeout req)
      then
        (case streamed b (req_timeout req * 1000) of
           (out, err) \<Rightarrow>
             (\<lparr>result_output = [], result_stdout = out, result_stderr = err,
               result_success = False, result_failure = Some TimeoutError\<rparr>,
              \<lparr>response_time_ms = req_timeout req * 1000, error_flag = True,
               metrics_stdout = out, metrics_stderr = err\<rparr>,
              checkin cfg slot False (p\<lparr>actions := actions p @ [Kill (slot_id slot)]\<rparr>)))
      else
        (case streamed b (the (run_duration_ms b)) of
           (out, err) \<Rightarrow>
             (\<lparr>result_output = (if exit_status b = 0 then out else []),
               result_stdout = out, result_stderr = err,
               result_success = (exit_status b = 0),
               result_failure = (if exit_status b = 0 then None else Some RuntimeExecutionError)\<rparr>,
              \<lparr>response_time_ms = the (run_duration_ms b), error_flag = (exit_status b \<noteq> 0),
               metrics_stdout = out, metrics_stderr = err\<rparr>,
              checkin cfg slot True p)))"


subsection \<open>Concurrent callers\<close>

text \<open>
  Modelled from the spec: requests run in parallel, and every mutation of a queue happens
  under the exclusion scope of its key, so the pool changes by one operation at a time.
  A step is a prewarm, the beginning of an execution, the end of an execution by the
  caller that owns the slot (\<open>checkin\<close> is called exactly once per checkout), a
  replenishment, or the destruction of a slot scheduled for it.
\<close>

inductive pool_step :: "pool_config \<Rightarrow> pool \<Rightarrow> pool \<Rightarrow> bool" for cfg :: pool_config where
  step_prewarm: "pool_step cfg p (prewarm key n outcomes p)"
| step_begin: "begin_execution cfg caller req starts p = Inr (slot, p') \<Longrightarrow> pool_step cfg p p'"
| step_finish:
    "(caller, slot) \<in> set (busy_slots p) \<Longrightarrow> finish_execution cfg slot req b p = (res, m, p')
       \<Longrightarrow> pool_step cfg p p'"
| step_replenish: "pool_step cfg p (replenish cfg key ok p)"
| step_destroyed: "s \<in> set (destroying_slots p) \<Longrightarrow> pool_step cfg p (destroy_slot s p)"

definition reachable :: "pool_config \<Rightarrow> pool \<Rightarrow> bool" where
  "reachable cfg p = (pool_step cfg)\<^sup>*\<^sup>* empty_pool p"

text \<open>The slots the pool knows, and the invariant of the pool.\<close>

definition all_slots :: "pool \<Rightarrow> container_slot list" where
  "all_slots p = idle_slots p @ map snd (busy_slots p) @ destroying_slots p"

definition pool_inv :: "pool \<Rightarrow> bool" where
  "pool_inv p \<longleftrightarrow>
     distinct (map slot_id (all_slots p))
     \<and> (\<forall>s \<in> set (all_slots p). slot_id s < next_id p)
     \<and> (\<forall>s \<in> set (idle_slots p). slot_state s = Idle)
     \<and> (\<forall>cb \<in> set (busy_slots p). slot_state (snd cb) = Busy)
     \<and> (\<forall>s \<in> set (destroying_slots p). slot_state s = Destroying)"

text \<open>A sample configuration, request and behaviours.\<close>

definition cfg0 :: pool_config where
  "cfg0 = \<lparr>min_idle = (\<lambda>k. 1), max_total = (\<lambda>k. 2), reuse_budget = (\<lambda>k. 3)\<rparr>"

definition req_loop :: execution_request where
  "req_loop =
     \<lparr>req_code = ''while True: pass'', req_language = ''python'', req_timeout = 2,
      req_backend = ''standard'', req_function_name = ''loop''\<rparr>"


text \<open>The identities of the idle slots, of the checked-out slots and of the slots being destroyed.\<close>

definition idle_ids :: "pool \<Rightarrow> nat set" where
  "idle_ids p = slot_id ` set (idle_slots p)"

definition busy_ids :: "pool \<Rightarrow> nat set" where
  "busy_ids p = (\<lambda>cb. slot_id (snd cb)) ` set (busy_slots p)"

definition destroying_ids :: "pool \<Rightarrow> nat set" where
  "destroying_ids p = slot_id ` set (destroying_slots p)"






text \<open>
  Sample pools: three containers pre-warmed for one key; caller 7 has begun to execute
  \<open>req_loop\<close> in slot 0; caller 8 has begun as well, in slot 1; the execution of
  caller 7 has timed out.
\<close>

definition py_slot :: "nat \<Rightarrow> lifecycle \<Rightarrow> nat \<Rightarrow> container_slot" where
  "py_slot i st u =
     \<lparr>slot_id = i, slot_language = ''python'', slot_backend = ''standard'',
      slot_state = st, slot_uses = u\<rparr>"

definition pool_warm :: pool where
  "pool_warm = prewarm (''python'', ''standard'') 3 [True, True, True] empty_pool"

definition pool_one :: pool where
  "pool_one =
     \<lparr>idle_slots = [py_slot 1 Idle 0, py_slot 2 Idle 0],
      busy_slots = [(7, py_slot 0 Busy 0)],
      destroying_slots = [], next_id = 3,
      actions = [Start 0, Start 1, Start 2, Inject 0 ''while True: pass'']\<rparr>"

definition pool_two :: pool where
  "pool_two =
     \<lparr>idle_slots = [py_slot 2 Idle 0],
      busy_slots = [(7, py_slot 0 Busy 0), (8, py_slot 1 Busy 0)],
      destroying_slots = [], next_id = 3,
      actions = [Start 0, Start 1, Start 2, Inject 0 ''while True: pass'',
                 Inject 1 ''while True: pass'']\<rparr>"


section \<open>Properties of the API layer\<close>

subsection \<open>Auxiliary facts\<close>

lemma state2_eq:
  "state2 = \<lparr>functions' = [with_id fn_add 1, with_id fn_nocode 2], world = 0, calls = [], printed = []\<rparr>"
  by (simp add: state2_def state0_def create_function_def Let_def)

lemma unpack2_Inr: "unpack2 v = Inr (a, b) \<longleftrightarrow> iter_items v = Some [a, b]"
  by (auto simp: unpack2_def split: option.splits list.splits)

lemma side_of_Inr:
  "side_of out m = Inr x \<longleftrightarrow>
     (\<exists>rt mu cu. subscript m ''response_time'' = Inr rt \<and> subscript m ''memory_usage'' = Inr mu
        \<and> subscript m ''cpu_usage'' = Inr cu
        \<and> x = \<lparr>response_time = rt, memory_usage = mu, cpu_usage = cu, output' = out\<rparr>)"
  by (auto simp: side_of_def split: sum.splits)

lemma sample_side:
  "side_of out sample_metrics =
     Inr \<lparr>response_time = PFloat 3 2, memory_usage = PFloat 5 3, cpu_usage = PFloat 1 0, output' = out\<rparr>"
  by (simp add: side_of_def sample_metrics_def)

lemma compare_valid:
  assumes "\<not> not_found s func_id"
    and "get_code (functions' s ! nat (func_id - 1)) = Inr (Some c)" and "c \<noteq> []"
  shows "compare_performance ext func_id s =
     (let function = functions' s ! nat (func_id - 1) in
      case run_and_unpack ext c function ''runc'' s of
        (Inl e, s1) \<Rightarrow> (Inl (Uncaught e), s1)
      | (Inr (runc_output, runc_metrics), s1) \<Rightarrow>
          (case run_and_unpack ext c function ''runsc'' s1 of
             (Inl e, s2) \<Rightarrow> (Inl (Uncaught e), s2)
           | (Inr (runsc_output, runsc_metrics), s2) \<Rightarrow>
               (case side_of runc_output runc_metrics of
                  Inl e \<Rightarrow> (Inl (Uncaught e), s2)
                | Inr runc_side \<Rightarrow>
                    (case side_of runsc_output runsc_metrics of
                       Inl e \<Rightarrow> (Inl (Uncaught e), s2)
                     | Inr runsc_side \<Rightarrow> (Inr (Comparison runc_side runsc_side), s2)))))"
  using assms
  by (simp add: compare_performance_def not_found_def Let_def cong: prod.case_cong sum.case_cong)

lemma run_and_unpack_eq:
  assumes "run_function ext c (language f) (timeout f) rt (name f) (world s) = (r, w')"
  shows "run_and_unpack ext c f rt s =
     ((case r of Inl e \<Rightarrow> Inl e | Inr v \<Rightarrow> unpack2 v),
      s\<lparr>world := w', calls := calls s @ [RunFunction c (language f) (timeout f) rt (name f)]\<rparr>)"
  using assms by (simp add: run_and_unpack_def call_ext_def split: sum.splits)

text \<open>
  \<open>compare_performance\<close> on a stored function with code, in terms of what the two calls
  of \<open>run_function\<close> do: every exception leaves the endpoint as it is.
\<close>

lemma compare_result:
  fixes ext :: "'w externals" and s :: "'w state"
  assumes valid: "\<not> not_found s func_id"
    and f: "f = functions' s ! nat (func_id - 1)"
    and code: "get_code f = Inr (Some c)" "c \<noteq> []"
    and r1: "run_function ext c (language f) (timeout f) ''runc'' (name f) (world s) = (r1, w1)"
    and r2: "run_function ext c (language f) (timeout f) ''runsc'' (name f) w1 = (r2, w2)"
    and s1: "s1 = s\<lparr>world := w1,
                     calls := calls s @ [RunFunction c (language f) (timeout f) ''runc'' (name f)]\<rparr>"
    and s2: "s2 = s\<lparr>world := w2,
                     calls := calls s @ [RunFunction c (language f) (timeout f) ''runc'' (name f),
                                         RunFunction c (language f) (timeout f) ''runsc'' (name f)]\<rparr>"
  shows "compare_performance ext func_id s =
     (case r1 of
        Inl e \<Rightarrow> (Inl (Uncaught e), s1)
      | Inr v1 \<Rightarrow>
          (case unpack2 v1 of
             Inl e \<Rightarrow> (Inl (Uncaught e), s1)
           | Inr (a1, m1) \<Rightarrow>
               (case r2 of
                  Inl e \<Rightarrow> (Inl (Uncaught e), s2)
                | Inr v2 \<Rightarrow>
                    (case unpack2 v2 of
                       Inl e \<Rightarrow> (Inl (Uncaught e), s2)
                     | Inr (a2, m2) \<Rightarrow>
                         (case side_of a1 m1 of
                            Inl e \<Rightarrow> (Inl (Uncaught e), s2)
                          | Inr x1 \<Rightarrow>
                              (case side_of a2 m2 of
                                 Inl e \<Rightarrow> (Inl (Uncaught e), s2)
                               | Inr x2 \<Rightarrow> (Inr (Comparison x1 x2), s2)))))))"
proof -
  have u1: "run_and_unpack ext c f ''runc'' s = ((case r1 of Inl e \<Rightarrow> Inl e | Inr v \<Rightarrow> unpack2 v), s1)"
    using run_and_unpack_eq [OF r1] by (simp add: s1)
  have u2: "run_and_unpack ext c f ''runsc'' s1 = ((case r2 of Inl e \<Rightarrow> Inl e | Inr v \<Rightarrow> unpack2 v), s2)"
    using run_and_unpack_eq [of ext c f "''runsc''" s1 r2 w2] r2 by (simp add: s1 s2)
  have cv: "compare_performance ext func_id s =
      (case run_and_unpack ext c f ''runc'' s of
         (Inl e, s1) \<Rightarrow> (Inl (Uncaught e), s1)
       | (Inr (runc_output, runc_metrics), s1) \<Rightarrow>
           (case run_and_unpack ext c f ''runsc'' s1 of
              (Inl e, s2) \<Rightarrow> (Inl (Uncaught e), s2)
            | (Inr (runsc_output, runsc_metrics), s2) \<Rightarrow>
                (case side_of runc_output runc_metrics of
                   Inl e \<Rightarrow> (Inl (Uncaught e), s2)
                 | Inr runc_side \<Rightarrow>
                     (case side_of runsc_output runsc_metrics of
                        Inl e \<Rightarrow> (Inl (Uncaught e), s2)
                      | Inr runsc_side \<Rightarrow> (Inr (Comparison runc_side runsc_side), s2)))))"
    using compare_valid [OF valid, of c ext] code unfolding f by (simp add: Let_def)
  show ?thesis
    unfolding cv u1 by (simp add: u2 split: sum.splits prod.splits)
qed

text \<open>A sequence of \<open>prewarm_containers\<close> calls stops at the first call that raises.\<close>

lemma prewarm_each_stops:
  fixes ext :: "'w externals" and s :: "'w state"
  assumes "k < length ps" and "length ws = Suc k" and "world s = ws ! 0"
    and "\<forall>i<k. prewarm_containers ext (fst (ps ! i)) (snd (ps ! i)) (ws ! i) = (Inr (), ws ! Suc i)"
    and "prewarm_containers ext (fst (ps ! k)) (snd (ps ! k)) (ws ! k) = (Inl e, w')"
  shows "prewarm_each ext ps s =
           (Inl e, s\<lparr>world := w', calls := calls s @ map prewarm_call (take (Suc k) ps)\<rparr>)"
  using assms
proof (induction ps arbitrary: k ws s)
  case Nil
  then show ?case by simp
next
  case (Cons p ps)
  obtain lang rt where p: "p = (lang, rt)" by (cases p)
  show ?case
  proof (cases k)
    case 0
    with Cons.prems p show ?thesis
      by (simp add: call_ext_def prewarm_call_def)
  next
    case (Suc j)
    from Cons.prems Suc obtain v vs where ws: "ws = v # vs"
      by (cases ws) auto
    have first: "prewarm_containers ext lang rt (world s) = (Inr (), vs ! 0)"
      using Cons.prems(3,4) Suc p ws by (auto dest: spec [of _ 0])
    let ?s' = "s\<lparr>world := vs ! 0, calls := calls s @ [PrewarmContainers lang rt]\<rparr>"
    have "prewarm_each ext ps ?s' =
            (Inl e, ?s'\<lparr>world := w', calls := calls ?s' @ map prewarm_call (take (Suc j) ps)\<rparr>)"
    proof (rule Cons.IH [of j vs])
      show "j < length ps" using Cons.prems(1) Suc by simp
      show "length vs = Suc j" using Cons.prems(2) Suc ws by simp
      show "world ?s' = vs ! 0" by simp
      show "\<forall>i<j. prewarm_containers ext (fst (ps ! i)) (snd (ps ! i)) (vs ! i) = (Inr (), vs ! Suc i)"
        using Cons.prems(4) Suc ws by (auto dest: spec [of _ "Suc i" for i])
      show "prewarm_containers ext (fst (ps ! j)) (snd (ps ! j)) (vs ! j) = (Inl e, w')"
        using Cons.prems(5) Suc ws by simp
    qed
    then show ?thesis
      using first p Suc by (simp add: call_ext_def prewarm_call_def)
  qed
qed

subsection \<open>The two runs of a comparison\<close>

text \<open>
  C1, as the specification states it: the two runs of a comparison are independent; when
  the run under one backend fails, the result of the other run is still reported, and a
  metrics record is returned for each backend.  The code refutes it when a run fails by
  raising: with \<open>run_function\<close> returning under runc and raising under runsc, the
  endpoint returns no comparison at all; the exception raised under runsc is what
  leaves it, and the runc result is lost.
\<close>

theorem compare_drops_runc_result_when_runsc_raises:
  "fst (run_function (ext_run_raises ''runsc'') ''print(1+1)'' ''python'' 5 ''runc'' ''add'' 0)
     = Inr (PTuple [PStr ''2'', sample_metrics])
   \<and> fst (compare_performance (ext_run_raises ''runsc'') 1 state2)
     = Inl (Uncaught (PyExn OtherException ''container failed''))"
  by (simp add: compare_performance_def run_and_unpack_def call_ext_def get_code_def unpack2_def
        ext_run_raises_def ext_ok_def state2_eq with_id_def fn_add_def Let_def)

text \<open>
  C1, amended: on a stored function with code, when both calls of \<open>run_function\<close>
  return a pair (output, metrics) whose metrics hold \<open>response_time\<close>,
  \<open>memory_usage\<close> and \<open>cpu_usage\<close>, \<open>compare_performance\<close> returns a comparison
  with the output and the metrics of each backend, whatever failure a run reports inside
  the value it returns.  When the runc call raises, that exception leaves the endpoint;
  when the runc call returns a pair and the runsc call raises, that exception leaves the
  endpoint; in both cases no comparison is returned.
\<close>

theorem compare_reports_both_or_raises:
  fixes ext :: "'w externals" and s :: "'w state"
  assumes valid: "\<not> not_found s func_id"
    and f: "f = functions' s ! nat (func_id - 1)"
    and code: "get_code f = Inr (Some c)" "c \<noteq> []"
    and r1: "run_function ext c (language f) (timeout f) ''runc'' (name f) (world s) = (r1, w1)"
    and r2: "run_function ext c (language f) (timeout f) ''runsc'' (name f) w1 = (r2, w2)"
  shows "(\<forall>e. r1 = Inl e \<longrightarrow> fst (compare_performance ext func_id s) = Inl (Uncaught e))
       \<and> (\<forall>v1 a1 m1 e. r1 = Inr v1 \<and> unpack2 v1 = Inr (a1, m1) \<and> r2 = Inl e \<longrightarrow>
             fst (compare_performance ext func_id s) = Inl (Uncaught e))
       \<and> (\<forall>v1 a1 m1 v2 a2 m2 x1 x2.
             r1 = Inr v1 \<and> unpack2 v1 = Inr (a1, m1) \<and> r2 = Inr v2 \<and> unpack2 v2 = Inr (a2, m2)
             \<and> side_of a1 m1 = Inr x1 \<and> side_of a2 m2 = Inr x2 \<longrightarrow>
             fst (compare_performance ext func_id s) = Inr (Comparison x1 x2)
             \<and> output' x1 = a1 \<and> output' x2 = a2)"
proof -
  have out: "output' x = a" if "side_of a m = Inr x" for a m x
    using that by (auto simp: side_of_Inr)
  show ?thesis
    by (auto simp: compare_result [OF valid f code r1 r2 refl refl] dest: out)
qed

theorem compare_reports_both_or_raises_witness:
  "fst (compare_performance ext_ok 1 state2)
     = Inr (Comparison
              \<lparr>response_time = PFloat 3 2, memory_usage = PFloat 5 3, cpu_usage = PFloat 1 0,
                 output' = PStr ''2''\<rparr>
              \<lparr>response_time = PFloat 3 2, memory_usage = PFloat 5 3, cpu_usage = PFloat 1 0,
                 output' = PStr ''2''\<rparr>)"
proof -
  have valid: "\<not> not_found state2 1"
    by (simp add: not_found_def state2_eq)
  have f: "with_id fn_add 1 = functions' state2 ! nat (1 - 1)"
    by (simp add: state2_eq)
  have code: "get_code (with_id fn_add 1) = Inr (Some ''print(1+1)'')" "''print(1+1)'' \<noteq> []"
    by (simp_all add: get_code_def with_id_def fn_add_def)
  have r1: "run_function ext_ok ''print(1+1)'' (language (with_id fn_add 1)) (timeout (with_id fn_add 1))
              ''runc'' (name (with_id fn_add 1)) (world state2)
            = (Inr (PTuple [PStr ''2'', sample_metrics]), 1)"
    by (simp add: ext_ok_def state2_eq)
  have r2: "run_function ext_ok ''print(1+1)'' (language (with_id fn_add 1)) (timeout (with_id fn_add 1))
              ''runsc'' (name (with_id fn_add 1)) 1
            = (Inr (PTuple [PStr ''2'', sample_metrics]), 2)"
    by (simp add: ext_ok_def)
  have u: "unpack2 (PTuple [PStr ''2'', sample_metrics]) = Inr (PStr ''2'', sample_metrics)"
    by (simp add: unpack2_def)
  from compare_reports_both_or_raises [OF valid f code r1 r2] u sample_side [of "PStr ''2''"]
  show ?thesis by blast
qed

subsection \<open>The calls a comparison makes\<close>

text \<open>
  C4, as the specification states it: a comparison invokes the engine exactly twice,
  once per backend.  The code refutes it when the first call raises: with
  \<open>run_function\<close> raising under runc, the engine is invoked once, and never under
  runsc.
\<close>

theorem compare_calls_once_when_runc_raises:
  "calls (snd (compare_performance (ext_run_raises ''runc'') 1 state2))
     = [RunFunction ''print(1+1)'' ''python'' 5 ''runc'' ''add'']"
  by (simp add: compare_performance_def run_and_unpack_def call_ext_def get_code_def
        ext_run_raises_def ext_ok_def state2_eq with_id_def fn_add_def Let_def)

text \<open>
  C4, amended: on a stored function with code, \<open>compare_performance\<close> calls
  \<open>run_function\<close> first under runc and then, provided that call returned a value that
  unpacks into two items, once under runsc, with the same code, language, timeout and
  name both times; it makes no other call.  A comparison is returned only after both
  calls, and it holds the output of each.
\<close>

theorem compare_calls:
  fixes ext :: "'w externals" and s :: "'w state"
  assumes valid: "\<not> not_found s func_id"
    and f: "f = functions' s ! nat (func_id - 1)"
    and code: "get_code f = Inr (Some c)" "c \<noteq> []"
    and r1: "run_function ext c (language f) (timeout f) ''runc'' (name f) (world s) = (r1, w1)"
  shows "calls (snd (compare_performance ext func_id s)) =
           (if \<exists>v a m. r1 = Inr v \<and> iter_items v = Some [a, m]
            then calls s @ [RunFunction c (language f) (timeout f) ''runc'' (name f),
                            RunFunction c (language f) (timeout f) ''runsc'' (name f)]
            else calls s @ [RunFunction c (language f) (timeout f) ''runc'' (name f)])
       \<and> (\<forall>r. fst (compare_performance ext func_id s) = Inr r \<longrightarrow>
             calls (snd (compare_performance ext func_id s))
               = calls s @ [RunFunction c (language f) (timeout f) ''runc'' (name f),
                            RunFunction c (language f) (timeout f) ''runsc'' (name f)]
             \<and> (\<exists>x1 x2. r = Comparison x1 x2))"
proof -
  obtain r2 w2 where r2: "run_function ext c (language f) (timeout f) ''runsc'' (name f) w1 = (r2, w2)"
    by (cases "run_function ext c (language f) (timeout f) ''runsc'' (name f) w1")
  show ?thesis
    by (auto simp: compare_result [OF valid f code r1 r2 refl refl] unpack2_Inr [symmetric]
             split: sum.splits prod.splits)
qed

theorem compare_calls_witness:
  "calls (snd (compare_performance ext_ok 1 state2))
     = [RunFunction ''print(1+1)'' ''python'' 5 ''runc'' ''add'',
        RunFunction ''print(1+1)'' ''python'' 5 ''runsc'' ''add'']"
proof -
  have valid: "\<not> not_found state2 1"
    by (simp add: not_found_def state2_eq)
  have f: "with_id fn_add 1 = functions' state2 ! nat (1 - 1)"
    by (simp add: state2_eq)
  have code: "get_code (with_id fn_add 1) = Inr (Some ''print(1+1)'')" "''print(1+1)'' \<noteq> []"
    by (simp_all add: get_code_def with_id_def fn_add_def)
  have r1: "run_function ext_ok ''print(1+1)'' (language (with_id fn_add 1)) (timeout (with_id fn_add 1))
              ''runc'' (name (with_id fn_add 1)) (world state2)
            = (Inr (PTuple [PStr ''2'', sample_metrics]), 1)"
    by (simp add: ext_ok_def state2_eq)
  from compare_calls [OF valid f code r1]
  show ?thesis by (simp add: state2_eq with_id_def fn_add_def)
qed

subsection \<open>Unknown ids\<close>

text \<open>
  C9, as stated: each of the six per-function endpoints raises HTTP 404 if and only if
  the id is not positive or exceeds the number of stored functions.  The code refutes
  the "only if" for the metrics endpoint: with a stored function and no metrics row
  for its name, the id 1 is in range and the endpoint raises 404.
\<close>

theorem metrics_404_with_valid_id:
  "status_code (fst (get_function_metrics ext_ok 1 state2)) = Some 404
   \<and> \<not> (1 \<le> (0::int) \<or> 1 > int (length (functions' state2)))"
  by (simp add: get_function_metrics_def state2_eq ext_ok_def Let_def)

text \<open>
  C9, amended: get, update, delete, run and compare raise HTTP 404 if and only if the id
  is not positive or exceeds the number of stored functions; the metrics endpoint raises
  404 if and only if that holds or the query finds no metrics row for the function's
  name.  When the id is out of range, every one of the six endpoints leaves the whole
  state as it was: the registry is unchanged and no collaborator is called.  Whenever
  the metrics endpoint raises 404, the registry and the world are unchanged and the
  engine is not invoked.
\<close>

theorem not_found_iff:
  fixes ext :: "'w externals" and s :: "'w state"
  shows "(status_code (fst (get_function func_id s)) = Some 404 \<longleftrightarrow> not_found s func_id)
       \<and> (status_code (fst (update_function func_id function s)) = Some 404 \<longleftrightarrow> not_found s func_id)
       \<and> (status_code (fst (delete_function func_id s)) = Some 404 \<longleftrightarrow> not_found s func_id)
       \<and> (status_code (fst (run_function_endpoint ext func_id s)) = Some 404 \<longleftrightarrow> not_found s func_id)
       \<and> (status_code (fst (compare_performance ext func_id s)) = Some 404 \<longleftrightarrow> not_found s func_id)
       \<and> (status_code (fst (get_function_metrics ext func_id s)) = Some 404 \<longleftrightarrow>
            not_found s func_id
            \<or> select_latest_metrics ext (name (functions' s ! nat (func_id - 1))) (world s) = Inr None)
       \<and> (not_found s func_id \<longrightarrow>
            snd (get_function func_id s) = s
            \<and> snd (update_function func_id function s) = s
            \<and> snd (delete_function func_id s) = s
            \<and> snd (run_function_endpoint ext func_id s) = s
            \<and> snd (compare_performance ext func_id s) = s
            \<and> snd (get_function_metrics ext func_id s) = s)
       \<and> (status_code (fst (get_function_metrics ext func_id s)) = Some 404 \<longrightarrow>
            functions' (snd (get_function_metrics ext func_id s)) = functions' s
            \<and> world (snd (get_function_metrics ext func_id s)) = world s
            \<and> (\<forall>c l t r n. RunFunction c l t r n \<in> set (calls (snd (get_function_metrics ext func_id s)))
                  \<longrightarrow> RunFunction c l t r n \<in> set (calls s)))"
proof (intro conjI)
  show "status_code (fst (get_function func_id s)) = Some 404 \<longleftrightarrow> not_found s func_id"
    by (simp add: get_function_def not_found_def)
  show "status_code (fst (update_function func_id function s)) = Some 404 \<longleftrightarrow> not_found s func_id"
    by (simp add: update_function_def not_found_def Let_def)
  show "status_code (fst (delete_function func_id s)) = Some 404 \<longleftrightarrow> not_found s func_id"
    by (simp add: delete_function_def not_found_def)
  show "status_code (fst (run_function_endpoint ext func_id s)) = Some 404 \<longleftrightarrow> not_found s func_id"
    by (auto simp: run_function_endpoint_def not_found_def Let_def call_ext_def run_except_def
             split: sum.splits prod.splits)
  show "status_code (fst (compare_performance ext func_id s)) = Some 404 \<longleftrightarrow> not_found s func_id"
    by (auto simp: compare_performance_def not_found_def Let_def split: sum.splits prod.splits)
  show "status_code (fst (get_function_metrics ext func_id s)) = Some 404 \<longleftrightarrow>
          not_found s func_id
          \<or> select_latest_metrics ext (name (functions' s ! nat (func_id - 1))) (world s) = Inr None"
    by (auto simp: get_function_metrics_def not_found_def Let_def split: sum.splits option.splits)
  show "not_found s func_id \<longrightarrow>
          snd (get_function func_id s) = s
          \<and> snd (update_function func_id function s) = s
          \<and> snd (delete_function func_id s) = s
          \<and> snd (run_function_endpoint ext func_id s) = s
          \<and> snd (compare_performance ext func_id s) = s
          \<and> snd (get_function_metrics ext func_id s) = s"
    by (simp add: not_found_def get_function_def update_function_def delete_function_def
          run_function_endpoint_def compare_performance_def get_function_metrics_def)
  show "status_code (fst (get_function_metrics ext func_id s)) = Some 404 \<longrightarrow>
          functions' (snd (get_function_metrics ext func_id s)) = functions' s
          \<and> world (snd (get_function_metrics ext func_id s)) = world s
          \<and> (\<forall>c l t r n. RunFunction c l t r n \<in> set (calls (snd (get_function_metrics ext func_id s)))
                \<longrightarrow> RunFunction c l t r n \<in> set (calls s))"
    by (auto simp: get_function_metrics_def Let_def split: sum.splits option.splits if_splits)
qed

theorem not_found_iff_witness:
  "not_found state2 3
   \<and> status_code (fst (get_function 3 state2)) = Some 404
   \<and> status_code (fst (update_function 3 fn_add state2)) = Some 404
   \<and> status_code (fst (delete_function 3 state2)) = Some 404
   \<and> status_code (fst (run_function_endpoint ext_ok 3 state2)) = Some 404
   \<and> status_code (fst (compare_performance ext_ok 3 state2)) = Some 404
   \<and> status_code (fst (get_function_metrics ext_ok 3 state2)) = Some 404
   \<and> snd (delete_function 3 state2) = state2
   \<and> snd (get_function_metrics ext_ok 3 state2) = state2"
  using not_found_iff [of 3 state2 fn_add ext_ok]
  by (simp add: not_found_def state2_eq)

subsection \<open>Functions without code\<close>

text \<open>
  C10: for a stored function whose settings dictionary has no key \<open>code\<close>, or holds
  the empty string under it, the run endpoint and the compare endpoint both raise HTTP
  400 and leave the state as it was; in particular \<open>run_function\<close> is not called.
\<close>

theorem missing_code_is_400:
  assumes "0 < func_id" and "func_id \<le> int (length (functions' s))"
    and "settings (functions' s ! nat (func_id - 1)) = Some d"
    and "d ''code'' = None \<or> d ''code'' = Some []"
  shows "run_function_endpoint ext func_id s
           = (Inl (HTTPException 400 ''No code provided in function settings''), s)
       \<and> compare_performance ext func_id s
           = (Inl (HTTPException 400 ''No code provided in function settings''), s)"
  using assms
  by (auto simp: run_function_endpoint_def compare_performance_def get_code_def Let_def)

theorem missing_code_is_400_witness:
  "run_function_endpoint ext_ok 2 state2
     = (Inl (HTTPException 400 ''No code provided in function settings''), state2)
   \<and> compare_performance ext_ok 2 state2
     = (Inl (HTTPException 400 ''No code provided in function settings''), state2)
   \<and> calls state2 = []"
  using missing_code_is_400 [of 2 state2 Map.empty ext_ok]
  by (simp add: state2_eq with_id_def fn_nocode_def)

subsection \<open>Failures during startup\<close>

text \<open>
  C2, as the specification states it: when the image build fails for one (language,
  backend) pair, only that pair is refused; startup goes on for the other pairs.  The
  code refutes it: \<open>ensure_docker_images\<close> is one call for all pairs, and when it
  raises, \<open>startup_event\<close> raises and pre-warms no pair at all, the pair (python, runc)
  included.
\<close>

theorem build_failure_stops_every_pair:
  "isl (fst (startup_event ext_build_fails state0))
   \<and> PrewarmContainers ''python'' ''runc'' \<notin> set (calls (snd (startup_event ext_build_fails state0)))"
  by (simp add: startup_event_def startup_try_def startup_except_def call_ext_def print_line_def
        ext_build_fails_def ext_ok_def state0_def)

text \<open>
  C2, amended: when \<open>ensure_docker_images\<close> raises, \<open>startup_event\<close> raises; no
  \<open>prewarm_containers\<close> call is made for any pair; a \<open>RuntimeError\<close> is raised again as
  \<open>RuntimeError\<close> with the text "Docker image build failed: " before its message.
\<close>

theorem build_failure_aborts_startup:
  fixes ext :: "'w externals" and s :: "'w state"
  assumes d: "docker_info ext (world s) = (Inr (), w0)"
    and i: "initialize_database ext w0 = (Inr (), w1)"
    and b: "ensure_docker_images ext w1 = (Inl e, w2)"
  shows "(\<exists>e'. fst (startup_event ext s) = Inl e')
       \<and> (exn_cls e = RuntimeError \<longrightarrow>
            fst (startup_event ext s) = Inl (PyExn RuntimeError (''Docker image build failed: '' @ str_exn e)))
       \<and> calls (snd (startup_event ext s)) = calls s @ [DockerInfo, InitializeDatabase, EnsureDockerImages]
       \<and> world (snd (startup_event ext s)) = w2"
proof -
  have "startup_event ext s =
          startup_except e
            (s\<lparr>world := w2, calls := calls s @ [DockerInfo, InitializeDatabase, EnsureDockerImages],
               printed := printed s @ [''Starting up FastAPI server...'', ''Docker is running and accessible.'',
                                      ''Database schema verified and initialized.'']\<rparr>)"
    using d i b by (cases s) (simp add: startup_event_def startup_try_def call_ext_def print_line_def)
  then show ?thesis
    by (simp add: startup_except_def print_line_def)
qed

theorem build_failure_aborts_startup_witness:
  "fst (startup_event ext_build_fails state0)
     = Inl (PyExn RuntimeError ''Docker image build failed: build failed for node/runsc'')
   \<and> calls (snd (startup_event ext_build_fails state0)) = [DockerInfo, InitializeDatabase, EnsureDockerImages]"
  using build_failure_aborts_startup
          [of ext_build_fails state0 1 2 "PyExn RuntimeError ''build failed for node/runsc''" 3]
  by (simp add: ext_build_fails_def ext_ok_def state0_def)

text \<open>
  C3, as the specification states it: a failure while pre-warming is logged and is not
  fatal; it neither aborts startup nor reaches the caller.  The code refutes it when
  \<open>prewarm_containers\<close> raises: with the call for (python, runsc) raising,
  \<open>startup_event\<close> raises \<open>RuntimeError\<close> and the pairs after it are never pre-warmed.
\<close>

theorem prewarm_failure_is_fatal:
  "fst (startup_event ext_prewarm_fails state0)
     = Inl (PyExn RuntimeError ''Startup failed: container did not start'')
   \<and> PrewarmContainers ''node'' ''runc'' \<notin> set (calls (snd (startup_event ext_prewarm_fails state0)))"
  by (simp add: startup_event_def startup_try_def startup_except_def call_ext_def print_line_def
        prewarm_pairs_def ext_prewarm_fails_def ext_ok_def state0_def)

text \<open>
  C3, amended: \<open>startup_event\<close> calls \<open>prewarm_containers\<close> for the four pairs one
  after the other; when the call for a pair raises, \<open>startup_event\<close> raises (a
  \<open>RuntimeError\<close> for every \<open>Exception\<close>), and the pairs after it are not pre-warmed;
  an exception that is neither \<open>FileNotFoundError\<close> nor \<open>RuntimeError\<close> is printed as
  "Startup error: ..." and raised as "Startup failed: ...".
\<close>

theorem prewarm_failure_aborts_startup:
  fixes ext :: "'w externals" and s :: "'w state"
  assumes d: "docker_info ext (world s) = (Inr (), w0)"
    and i: "initialize_database ext w0 = (Inr (), w1)"
    and b: "ensure_docker_images ext w1 = (Inr (), ws ! 0)"
    and k: "k < length prewarm_pairs" "length ws = Suc k"
    and ok: "\<forall>i<k. prewarm_containers ext (fst (prewarm_pairs ! i)) (snd (prewarm_pairs ! i)) (ws ! i)
                     = (Inr (), ws ! Suc i)"
    and bad: "prewarm_containers ext (fst (prewarm_pairs ! k)) (snd (prewarm_pairs ! k)) (ws ! k) = (Inl e, w')"
  shows "(\<exists>e'. fst (startup_event ext s) = Inl e')
       \<and> (exn_cls e \<noteq> OtherBaseException \<longrightarrow>
            (\<exists>m. fst (startup_event ext s) = Inl (PyExn RuntimeError m)))
       \<and> (exn_cls e \<notin> {FileNotFoundError, RuntimeError, OtherBaseException} \<longrightarrow>
            fst (startup_event ext s) = Inl (PyExn RuntimeError (''Startup failed: '' @ str_exn e))
            \<and> last (printed (snd (startup_event ext s))) = ''Startup error: '' @ str_exn e)
       \<and> calls (snd (startup_event ext s))
           = calls s @ [DockerInfo, InitializeDatabase, EnsureDockerImages]
               @ map prewarm_call (take (Suc k) prewarm_pairs)
       \<and> world (snd (startup_event ext s)) = w'"
proof -
  let ?s2 = "s\<lparr>world := ws ! 0, calls := calls s @ [DockerInfo, InitializeDatabase, EnsureDockerImages],
               printed := printed s @ [''Starting up FastAPI server...'', ''Docker is running and accessible.'',
                                      ''Database schema verified and initialized.'', ''Docker images ensured.'']\<rparr>"
  have pe: "prewarm_each ext prewarm_pairs ?s2 =
              (Inl e, ?s2\<lparr>world := w', calls := calls ?s2 @ map prewarm_call (take (Suc k) prewarm_pairs)\<rparr>)"
    by (rule prewarm_each_stops [OF k(1) k(2) _ ok bad]) simp
  have "startup_event ext s =
          startup_except e (?s2\<lparr>world := w', calls := calls ?s2 @ map prewarm_call (take (Suc k) prewarm_pairs)\<rparr>)"
    using d i b pe by (cases s) (simp add: startup_event_def startup_try_def call_ext_def print_line_def)
  then show ?thesis
    by (simp add: startup_except_def print_line_def)
qed

theorem prewarm_failure_aborts_startup_witness:
  "fst (startup_event ext_prewarm_fails state0) = Inl (PyExn RuntimeError ''Startup failed: container did not start'')
   \<and> last (printed (snd (startup_event ext_prewarm_fails state0))) = ''Startup error: container did not start''
   \<and> calls (snd (startup_event ext_prewarm_fails state0))
        = [DockerInfo, InitializeDatabase, EnsureDockerImages,
           PrewarmContainers ''python'' ''runc'', PrewarmContainers ''python'' ''runsc'']"
  using prewarm_failure_aborts_startup
          [of ext_prewarm_fails state0 1 2 "[3, 4]" 1 "PyExn OtherException ''container did not start''" 5]
  by (simp add: ext_prewarm_fails_def ext_ok_def state0_def prewarm_pairs_def prewarm_call_def)

section \<open>Properties of the engine as specified\<close>

subsection \<open>The invariant of the pool\<close>

lemma pool_inv_iff:
  "pool_inv p \<longleftrightarrow>
     distinct (map slot_id (idle_slots p))
     \<and> distinct (map (\<lambda>cb. slot_id (snd cb)) (busy_slots p))
     \<and> distinct (map slot_id (destroying_slots p))
     \<and> idle_ids p \<inter> busy_ids p = {}
     \<and> idle_ids p \<inter> destroying_ids p = {}
     \<and> busy_ids p \<inter> destroying_ids p = {}
     \<and> (\<forall>i \<in> idle_ids p \<union> busy_ids p \<union> destroying_ids p. i < next_id p)
     \<and> (\<forall>s \<in> set (idle_slots p). slot_state s = Idle)
     \<and> (\<forall>cb \<in> set (busy_slots p). slot_state (snd cb) = Busy)
     \<and> (\<forall>s \<in> set (destroying_slots p). slot_state s = Destroying)"
proof -
  have d: "distinct (map slot_id (all_slots p)) \<longleftrightarrow>
     distinct (map slot_id (idle_slots p))
     \<and> distinct (map (\<lambda>cb. slot_id (snd cb)) (busy_slots p))
     \<and> distinct (map slot_id (destroying_slots p))
     \<and> idle_ids p \<inter> busy_ids p = {}
     \<and> idle_ids p \<inter> destroying_ids p = {}
     \<and> busy_ids p \<inter> destroying_ids p = {}"
    by (auto simp: all_slots_def idle_ids_def busy_ids_def destroying_ids_def comp_def image_image)
  have b: "(\<forall>s \<in> set (all_slots p). slot_id s < next_id p) \<longleftrightarrow>
           (\<forall>i \<in> idle_ids p \<union> busy_ids p \<union> destroying_ids p. i < next_id p)"
    by (auto simp: all_slots_def idle_ids_def busy_ids_def destroying_ids_def)
  show ?thesis
    unfolding pool_inv_def d b by blast
qed

lemma pool_invI:
  assumes "distinct (map slot_id (idle_slots p))"
    and "distinct (map (\<lambda>cb. slot_id (snd cb)) (busy_slots p))"
    and "distinct (map slot_id (destroying_slots p))"
    and "idle_ids p \<inter> busy_ids p = {}"
    and "idle_ids p \<inter> destroying_ids p = {}"
    and "busy_ids p \<inter> destroying_ids p = {}"
    and "\<And>i. i \<in> idle_ids p \<union> busy_ids p \<union> destroying_ids p \<Longrightarrow> i < next_id p"
    and "\<And>s. s \<in> set (idle_slots p) \<Longrightarrow> slot_state s = Idle"
    and "\<And>cb. cb \<in> set (busy_slots p) \<Longrightarrow> slot_state (snd cb) = Busy"
    and "\<And>s. s \<in> set (destroying_slots p) \<Longrightarrow> slot_state s = Destroying"
  shows "pool_inv p"
  unfolding pool_inv_iff using assms by blast

lemma pool_invD:
  assumes "pool_inv p"
  shows "distinct (map slot_id (idle_slots p))"
    and "distinct (map (\<lambda>cb. slot_id (snd cb)) (busy_slots p))"
    and "distinct (map slot_id (destroying_slots p))"
    and "idle_ids p \<inter> busy_ids p = {}"
    and "idle_ids p \<inter> destroying_ids p = {}"
    and "busy_ids p \<inter> destroying_ids p = {}"
    and "\<And>i. i \<in> idle_ids p \<union> busy_ids p \<union> destroying_ids p \<Longrightarrow> i < next_id p"
    and "\<And>s. s \<in> set (idle_slots p) \<Longrightarrow> slot_state s = Idle"
    and "\<And>cb. cb \<in> set (busy_slots p) \<Longrightarrow> slot_state (snd cb) = Busy"
    and "\<And>s. s \<in> set (destroying_slots p) \<Longrightarrow> slot_state s = Destroying"
  using assms unfolding pool_inv_iff by blast+

lemma pool_inv_empty: "pool_inv empty_pool"
  by (simp add: pool_inv_def empty_pool_def all_slots_def)

lemma pool_inv_actions: "pool_inv (p\<lparr>actions := a\<rparr>) = pool_inv p"
  by (simp add: pool_inv_def all_slots_def)

lemma pool_inv_enqueue_new:
  assumes inv: "pool_inv p" shows "pool_inv (enqueue_new key p)"
proof -
  let ?q = "enqueue_new key p"
  let ?n = "\<lparr>slot_id = next_id p, slot_language = fst key, slot_backend = snd key,
       slot_state = Idle, slot_uses = 0\<rparr>"
  have q: "idle_slots ?q = idle_slots p @ [?n]" "busy_slots ?q = busy_slots p"
       "destroying_slots ?q = destroying_slots p" "next_id ?q = Suc (next_id p)"
    by (simp_all add: enqueue_new_def start_container_def)
  have ids: "idle_ids ?q = insert (next_id p) (idle_ids p)" "busy_ids ?q = busy_ids p"
       "destroying_ids ?q = destroying_ids p"
    by (simp_all add: idle_ids_def busy_ids_def destroying_ids_def q)
  have fresh: "next_id p \<notin> idle_ids p" "next_id p \<notin> busy_ids p" "next_id p \<notin> destroying_ids p"
    using pool_invD(7) [OF inv, of "next_id p"] by auto
  show ?thesis
  proof (rule pool_invI)
    show "distinct (map slot_id (idle_slots ?q))"
      using pool_invD(1) [OF inv] fresh(1) by (simp add: q idle_ids_def)
    show "distinct (map (\<lambda>cb. slot_id (snd cb)) (busy_slots ?q))"
      using pool_invD(2) [OF inv] by (simp add: q)
    show "distinct (map slot_id (destroying_slots ?q))"
      using pool_invD(3) [OF inv] by (simp add: q)
    show "idle_ids ?q \<inter> busy_ids ?q = {}"
      using pool_invD(4) [OF inv] fresh(2) by (simp add: ids)
    show "idle_ids ?q \<inter> destroying_ids ?q = {}"
      using pool_invD(5) [OF inv] fresh(3) by (simp add: ids)
    show "busy_ids ?q \<inter> destroying_ids ?q = {}"
      using pool_invD(6) [OF inv] by (simp add: ids)
    show "i < next_id ?q" if "i \<in> idle_ids ?q \<union> busy_ids ?q \<union> destroying_ids ?q" for i
      using that pool_invD(7) [OF inv, of i] by (auto simp: ids q)
    show "slot_state s = Idle" if "s \<in> set (idle_slots ?q)" for s
      using that pool_invD(8) [OF inv, of s] by (auto simp: q)
    show "slot_state (snd cb) = Busy" if "cb \<in> set (busy_slots ?q)" for cb
      using that pool_invD(9) [OF inv, of cb] by (simp add: q)
    show "slot_state s = Destroying" if "s \<in> set (destroying_slots ?q)" for s
      using that pool_invD(10) [OF inv, of s] by (simp add: q)
  qed
qed

lemma pool_inv_prewarm_starts: "pool_inv p \<Longrightarrow> pool_inv (prewarm_starts key oks p)"
  by (induction oks arbitrary: p) (simp_all add: pool_inv_enqueue_new)

lemma pool_inv_prewarm: "pool_inv p \<Longrightarrow> pool_inv (prewarm key n outcomes p)"
  by (simp add: prewarm_def pool_inv_prewarm_starts)

lemma pool_inv_replenish: "pool_inv p \<Longrightarrow> pool_inv (replenish cfg key ok p)"
  by (simp add: replenish_def pool_inv_enqueue_new)

lemma distinct_map_remove1: "distinct (map f xs) \<Longrightarrow> distinct (map f (remove1 x xs))"
  unfolding distinct_map
  by (metis distinct_remove1 inj_on_subset set_remove1_subset)

lemma image_remove1:
  "distinct (map f xs) \<Longrightarrow> x \<in> set xs \<Longrightarrow> f ` set (remove1 x xs) = f ` set xs - {f x}"
  by (induction xs) auto

lemma pool_inv_destroy_slot:
  assumes inv: "pool_inv p" shows "pool_inv (destroy_slot s p)"
proof -
  let ?q = "destroy_slot s p"
  have q: "idle_slots ?q = idle_slots p" "busy_slots ?q = busy_slots p"
       "destroying_slots ?q = remove1 s (destroying_slots p)" "next_id ?q = next_id p"
    by (simp_all add: destroy_slot_def)
  have sub: "set (destroying_slots ?q) \<subseteq> set (destroying_slots p)"
    unfolding q by (rule set_remove1_subset)
  then have subi: "destroying_ids ?q \<subseteq> destroying_ids p"
    unfolding destroying_ids_def by blast
  have ids: "idle_ids ?q = idle_ids p" "busy_ids ?q = busy_ids p"
    by (simp_all add: idle_ids_def busy_ids_def q)
  show ?thesis
  proof (rule pool_invI)
    show "distinct (map slot_id (idle_slots ?q))"
      using pool_invD(1) [OF inv] by (simp add: q)
    show "distinct (map (\<lambda>cb. slot_id (snd cb)) (busy_slots ?q))"
      using pool_invD(2) [OF inv] by (simp add: q)
    show "distinct (map slot_id (destroying_slots ?q))"
      using pool_invD(3) [OF inv] by (simp add: q distinct_map_remove1)
    show "idle_ids ?q \<inter> busy_ids ?q = {}"
      using pool_invD(4) [OF inv] by (simp add: ids)
    show "idle_ids ?q \<inter> destroying_ids ?q = {}"
      using pool_invD(5) [OF inv] subi unfolding ids by blast
    show "busy_ids ?q \<inter> destroying_ids ?q = {}"
      using pool_invD(6) [OF inv] subi unfolding ids by blast
    show "i < next_id ?q" if "i \<in> idle_ids ?q \<union> busy_ids ?q \<union> destroying_ids ?q" for i
      using that pool_invD(7) [OF inv, of i] subi unfolding ids q by blast
    show "slot_state x = Idle" if "x \<in> set (idle_slots ?q)" for x
      using that pool_invD(8) [OF inv, of x] by (simp add: q)
    show "slot_state (snd cb) = Busy" if "cb \<in> set (busy_slots ?q)" for cb
      using that pool_invD(9) [OF inv, of cb] by (simp add: q)
    show "slot_state x = Destroying" if "x \<in> set (destroying_slots ?q)" for x
      using that pool_invD(10) [OF inv, of x] sub by blast
  qed
qed

lemma idle_queue_head:
  assumes "idle_queue p key = s # rest"
  shows "s \<in> set (idle_slots p)" and "slot_key s = key"
proof -
  have "s \<in> set (idle_queue p key)" using assms by simp
  then show "s \<in> set (idle_slots p)" and "slot_key s = key"
    by (simp_all add: idle_queue_def)
qed

text \<open>What checkout does to the pool.\<close>

lemma checkout_cases:
  assumes co: "checkout cfg key caller starts p = Inr (b, q)"
  obtains
    (reuse) s where "s \<in> set (idle_slots p)" "slot_key s = key" "b = s\<lparr>slot_state := Busy\<rparr>"
      "idle_slots q = remove1 s (idle_slots p)" "busy_slots q = busy_slots p @ [(caller, b)]"
      "destroying_slots q = destroying_slots p" "next_id q = next_id p" "actions q = actions p"
  | (fresh) "slot_id b = next_id p" "slot_state b = Busy" "slot_key b = key"
      "idle_slots q = idle_slots p" "busy_slots q = busy_slots p @ [(caller, b)]"
      "destroying_slots q = destroying_slots p" "next_id q = Suc (next_id p)"
      "actions q = actions p @ [Start (next_id p)]"
proof (cases "idle_queue p key")
  case (Cons s rest)
  have "b = s\<lparr>slot_state := Busy\<rparr>"
    and "q = p\<lparr>idle_slots := remove1 s (idle_slots p), busy_slots := busy_slots p @ [(caller, b)]\<rparr>"
    using co Cons by (auto simp: checkout_def Let_def)
  then show ?thesis
    using idle_queue_head [OF Cons] by (intro reuse [of s]) simp_all
next
  case Nil
  have "b = \<lparr>slot_id = next_id p, slot_language = fst key, slot_backend = snd key,
       slot_state = Busy, slot_uses = 0\<rparr>"
    and "q = p\<lparr>next_id := Suc (next_id p), actions := actions p @ [Start (next_id p)],
                  busy_slots := busy_slots p @ [(caller, b)]\<rparr>"
    using co Nil by (auto simp: checkout_def start_container_def split: if_splits)
  then show ?thesis
    by (intro fresh) (simp_all add: slot_key_def)
qed

lemma pool_inv_checkout:
  assumes inv: "pool_inv p" and co: "checkout cfg key caller starts p = Inr (b, q)"
  shows "pool_inv q"
  using co
proof (cases rule: checkout_cases)
  case (reuse s)
  have ids: "idle_ids q = idle_ids p - {slot_id s}" "busy_ids q = insert (slot_id s) (busy_ids p)"
       "destroying_ids q = destroying_ids p"
    using image_remove1 [OF pool_invD(1) [OF inv] reuse(1)]
    by (simp_all add: idle_ids_def busy_ids_def destroying_ids_def reuse)
  have sid: "slot_id s \<in> idle_ids p" using reuse(1) by (simp add: idle_ids_def)
  have nb: "slot_id s \<notin> busy_ids p" using pool_invD(4) [OF inv] sid by blast
  have nd: "slot_id s \<notin> destroying_ids p" using pool_invD(5) [OF inv] sid by blast
  have sub: "set (idle_slots q) \<subseteq> set (idle_slots p)"
    unfolding reuse by (rule set_remove1_subset)
  show ?thesis
  proof (rule pool_invI)
    show "distinct (map slot_id (idle_slots q))"
      using pool_invD(1) [OF inv] by (simp add: reuse distinct_map_remove1)
    show "distinct (map (\<lambda>cb. slot_id (snd cb)) (busy_slots q))"
      using pool_invD(2) [OF inv] nb by (simp add: reuse busy_ids_def)
    show "distinct (map slot_id (destroying_slots q))"
      using pool_invD(3) [OF inv] by (simp add: reuse)
    show "idle_ids q \<inter> busy_ids q = {}"
      using pool_invD(4) [OF inv] unfolding ids by blast
    show "idle_ids q \<inter> destroying_ids q = {}"
      using pool_invD(5) [OF inv] unfolding ids by blast
    show "busy_ids q \<inter> destroying_ids q = {}"
      using pool_invD(6) [OF inv] nd unfolding ids by blast
    show "i < next_id q" if "i \<in> idle_ids q \<union> busy_ids q \<union> destroying_ids q" for i
      using that pool_invD(7) [OF inv, of i] sid unfolding ids reuse by blast
    show "slot_state x = Idle" if "x \<in> set (idle_slots q)" for x
      using that pool_invD(8) [OF inv, of x] sub by blast
    show "slot_state (snd cb) = Busy" if "cb \<in> set (busy_slots q)" for cb
      using that pool_invD(9) [OF inv, of cb] by (auto simp: reuse)
    show "slot_state x = Destroying" if "x \<in> set (destroying_slots q)" for x
      using that pool_invD(10) [OF inv, of x] by (simp add: reuse)
  qed
next
  case fresh
  have ids: "idle_ids q = idle_ids p" "busy_ids q = insert (next_id p) (busy_ids p)"
       "destroying_ids q = destroying_ids p"
    by (simp_all add: idle_ids_def busy_ids_def destroying_ids_def fresh)
  have fr: "next_id p \<notin> idle_ids p" "next_id p \<notin> busy_ids p" "next_id p \<notin> destroying_ids p"
    using pool_invD(7) [OF inv, of "next_id p"] by auto
  show ?thesis
  proof (rule pool_invI)
    show "distinct (map slot_id (idle_slots q))"
      using pool_invD(1) [OF inv] by (simp add: fresh)
    show "distinct (map (\<lambda>cb. slot_id (snd cb)) (busy_slots q))"
      using pool_invD(2) [OF inv] fr(2) by (simp add: fresh busy_ids_def)
    show "distinct (map slot_id (destroying_slots q))"
      using pool_invD(3) [OF inv] by (simp add: fresh)
    show "idle_ids q \<inter> busy_ids q = {}"
      using pool_invD(4) [OF inv] fr(1) unfolding ids by blast
    show "idle_ids q \<inter> destroying_ids q = {}"
      using pool_invD(5) [OF inv] unfolding ids by blast
    show "busy_ids q \<inter> destroying_ids q = {}"
      using pool_invD(6) [OF inv] fr(3) unfolding ids by blast
    show "i < next_id q" if "i \<in> idle_ids q \<union> busy_ids q \<union> destroying_ids q" for i
      using that pool_invD(7) [OF inv, of i] unfolding ids fresh by (auto simp: less_SucI)
    show "slot_state x = Idle" if "x \<in> set (idle_slots q)" for x
      using that pool_invD(8) [OF inv, of x] by (simp add: fresh)
    show "slot_state (snd cb) = Busy" if "cb \<in> set (busy_slots q)" for cb
      using that pool_invD(9) [OF inv, of cb] by (auto simp: fresh)
    show "slot_state x = Destroying" if "x \<in> set (destroying_slots q)" for x
      using that pool_invD(10) [OF inv, of x] by (simp add: fresh)
  qed
qed

text \<open>What checkin does to the pool.\<close>

lemma checkin_cases:
  obtains
    (reused) u where "slot_id u = slot_id slot" "slot_state u = Idle"
      "idle_slots (checkin cfg slot healthy p) = idle_slots p @ [u]"
      "destroying_slots (checkin cfg slot healthy p) = destroying_slots p"
  | (retired) u where "slot_id u = slot_id slot" "slot_state u = Destroying"
      "idle_slots (checkin cfg slot healthy p) = idle_slots p"
      "destroying_slots (checkin cfg slot healthy p) = destroying_slots p @ [u]"
proof (cases "healthy \<and> Suc (slot_uses slot) < reuse_budget cfg (slot_key slot)")
  case True
  then show ?thesis
    by (intro reused [of "slot\<lparr>slot_uses := Suc (slot_uses slot), slot_state := Idle\<rparr>"])
       (simp_all add: checkin_def Let_def)
next
  case False
  then show ?thesis
    by (intro retired [of "slot\<lparr>slot_uses := Suc (slot_uses slot), slot_state := Destroying\<rparr>"])
       (auto simp: checkin_def Let_def)
qed

lemma checkin_rest:
  "busy_slots (checkin cfg slot healthy p)
     = filter (\<lambda>cb. slot_id (snd cb) \<noteq> slot_id slot) (busy_slots p)"
  "next_id (checkin cfg slot healthy p) = next_id p"
  "actions (checkin cfg slot healthy p) = actions p"
  by (simp_all add: checkin_def Let_def)


lemma pool_inv_checkin:
  assumes inv: "pool_inv p" and own: "(caller, slot) \<in> set (busy_slots p)"
  shows "pool_inv (checkin cfg slot healthy p)"
proof -
  let ?q = "checkin cfg slot healthy p"
  have sb: "slot_id slot \<in> busy_ids p"
    using own by (force simp: busy_ids_def)
  have ni: "slot_id slot \<notin> idle_ids p" using pool_invD(4) [OF inv] sb by blast
  have nd: "slot_id slot \<notin> destroying_ids p" using pool_invD(6) [OF inv] sb by blast
  have bq: "busy_ids ?q = busy_ids p - {slot_id slot}"
    by (auto simp: busy_ids_def checkin_rest)
  have db: "distinct (map (\<lambda>cb. slot_id (snd cb)) (busy_slots ?q))"
    using pool_invD(2) [OF inv] by (simp add: checkin_rest distinct_map_filter)
  have bst: "slot_state (snd cb) = Busy" if "cb \<in> set (busy_slots ?q)" for cb
    using that pool_invD(9) [OF inv, of cb] by (simp add: checkin_rest)
  show ?thesis
  proof (cases rule: checkin_cases [of slot cfg healthy p])
    case (reused u)
    have ids: "idle_ids ?q = insert (slot_id slot) (idle_ids p)" "destroying_ids ?q = destroying_ids p"
      by (simp_all add: idle_ids_def destroying_ids_def reused)
    show ?thesis
    proof (rule pool_invI)
      show "distinct (map slot_id (idle_slots ?q))"
        using pool_invD(1) [OF inv] ni by (simp add: reused idle_ids_def)
      show "distinct (map (\<lambda>cb. slot_id (snd cb)) (busy_slots ?q))" by (rule db)
      show "distinct (map slot_id (destroying_slots ?q))"
        using pool_invD(3) [OF inv] by (simp add: reused)
      show "idle_ids ?q \<inter> busy_ids ?q = {}"
        using pool_invD(4) [OF inv] unfolding ids bq by blast
      show "idle_ids ?q \<inter> destroying_ids ?q = {}"
        using pool_invD(5) [OF inv] nd unfolding ids by blast
      show "busy_ids ?q \<inter> destroying_ids ?q = {}"
        using pool_invD(6) [OF inv] unfolding ids bq by blast
      show "i < next_id ?q" if "i \<in> idle_ids ?q \<union> busy_ids ?q \<union> destroying_ids ?q" for i
        using that pool_invD(7) [OF inv, of i] sb unfolding ids bq checkin_rest by blast
      show "slot_state x = Idle" if "x \<in> set (idle_slots ?q)" for x
        using that pool_invD(8) [OF inv, of x] reused(2) by (auto simp: reused(3))
      show "slot_state (snd cb) = Busy" if "cb \<in> set (busy_slots ?q)" for cb
        using that by (rule bst)
      show "slot_state x = Destroying" if "x \<in> set (destroying_slots ?q)" for x
        using that pool_invD(10) [OF inv, of x] by (simp add: reused)
    qed
  next
    case (retired u)
    have ids: "idle_ids ?q = idle_ids p" "destroying_ids ?q = insert (slot_id slot) (destroying_ids p)"
      by (simp_all add: idle_ids_def destroying_ids_def retired)
    show ?thesis
    proof (rule pool_invI)
      show "distinct (map slot_id (idle_slots ?q))"
        using pool_invD(1) [OF inv] by (simp add: retired)
      show "distinct (map (\<lambda>cb. slot_id (snd cb)) (busy_slots ?q))" by (rule db)
      show "distinct (map slot_id (destroying_slots ?q))"
        using pool_invD(3) [OF inv] nd by (simp add: retired destroying_ids_def)
      show "idle_ids ?q \<inter> busy_ids ?q = {}"
        using pool_invD(4) [OF inv] unfolding ids bq by blast
      show "idle_ids ?q \<inter> destroying_ids ?q = {}"
        using pool_invD(5) [OF inv] ni unfolding ids by blast
      show "busy_ids ?q \<inter> destroying_ids ?q = {}"
        using pool_invD(6) [OF inv] unfolding ids bq by blast
      show "i < next_id ?q" if "i \<in> idle_ids ?q \<union> busy_ids ?q \<union> destroying_ids ?q" for i
        using that pool_invD(7) [OF inv, of i] sb unfolding ids bq checkin_rest by blast
      show "slot_state x = Idle" if "x \<in> set (idle_slots ?q)" for x
        using that pool_invD(8) [OF inv, of x] by (simp add: retired)
      show "slot_state (snd cb) = Busy" if "cb \<in> set (busy_slots ?q)" for cb
        using that by (rule bst)
      show "slot_state x = Destroying" if "x \<in> set (destroying_slots ?q)" for x
        using that pool_invD(10) [OF inv, of x] retired(2) by (auto simp: retired(4))
    qed
  qed
qed

subsection \<open>Steps of the pool\<close>

lemma pool_inv_begin_execution:
  assumes "pool_inv p" and "begin_execution cfg caller req starts p = Inr (slot, q)"
  shows "pool_inv q"
proof -
  obtain q1 where co: "checkout cfg (req_language req, req_backend req) caller starts p = Inr (slot, q1)"
    and q: "q = q1\<lparr>actions := actions q1 @ [Inject (slot_id slot) (req_code req)]\<rparr>"
    using assms(2) by (auto simp: begin_execution_def split: sum.splits)
  show ?thesis
    unfolding q pool_inv_actions using assms(1) co by (rule pool_inv_checkout)
qed

lemma finish_execution_pool:
  "snd (snd (finish_execution cfg slot req b p)) =
     (if runs_longer b (req_timeout req)
      then checkin cfg slot False (p\<lparr>actions := actions p @ [Kill (slot_id slot)]\<rparr>)
      else checkin cfg slot True p)"
  by (simp add: finish_execution_def split: prod.splits)

lemma pool_inv_finish_execution:
  assumes inv: "pool_inv p" and own: "(caller, slot) \<in> set (busy_slots p)"
    and fin: "finish_execution cfg slot req b p = (res, m, q)"
  shows "pool_inv q"
proof -
  have q: "q = snd (snd (finish_execution cfg slot req b p))" using fin by simp
  let ?k = "p\<lparr>actions := actions p @ [Kill (slot_id slot)]\<rparr>"
  have "pool_inv ?k" and "(caller, slot) \<in> set (busy_slots ?k)"
    using inv own by (simp_all add: pool_inv_actions)
  then have "pool_inv (checkin cfg slot False ?k)" by (rule pool_inv_checkin)
  moreover have "pool_inv (checkin cfg slot True p)" using inv own by (rule pool_inv_checkin)
  ultimately show ?thesis unfolding q finish_execution_pool by simp
qed

lemma pool_inv_step: "pool_step cfg p q \<Longrightarrow> pool_inv p \<Longrightarrow> pool_inv q"
proof (induction rule: pool_step.induct)
  case (step_prewarm p key n outcomes)
  then show ?case by (rule pool_inv_prewarm)
next
  case (step_begin caller req starts p slot p')
  then show ?case using pool_inv_begin_execution by blast
next
  case (step_finish caller slot p req b res m p')
  then show ?case using pool_inv_finish_execution by blast
next
  case (step_replenish p key ok)
  then show ?case by (rule pool_inv_replenish)
next
  case (step_destroyed s p)
  then show ?case using pool_inv_destroy_slot by blast
qed

lemma pool_inv_steps: "(pool_step cfg)\<^sup>*\<^sup>* p q \<Longrightarrow> pool_inv p \<Longrightarrow> pool_inv q"
  by (induction rule: rtranclp_induct) (auto intro: pool_inv_step)

lemma reachable_pool_inv: "reachable cfg p \<Longrightarrow> pool_inv p"
  unfolding reachable_def using pool_inv_steps pool_inv_empty by blast








subsection \<open>Scheduled destructions\<close>













subsection \<open>Timeouts and ownership\<close>

lemma pool_warm_eq:
  "pool_warm =
     \<lparr>idle_slots = [py_slot 0 Idle 0, py_slot 1 Idle 0, py_slot 2 Idle 0],
      busy_slots = [], destroying_slots = [], next_id = 3,
      actions = [Start 0, Start 1, Start 2]\<rparr>"
  by (simp add: pool_warm_def prewarm_def idle_queue_def empty_pool_def enqueue_new_def
        start_container_def py_slot_def)

lemma reachable_pool_warm: "reachable cfg pool_warm"
  unfolding reachable_def pool_warm_def by (rule r_into_rtranclp) (rule step_prewarm)

lemma begin_7: "begin_execution cfg0 7 req_loop [] pool_warm = Inr (py_slot 0 Busy 0, pool_one)"
  by (simp add: begin_execution_def checkout_def idle_queue_def slot_key_def pool_warm_eq
        req_loop_def py_slot_def pool_one_def Let_def)

lemma begin_8: "begin_execution cfg0 8 req_loop [] pool_one = Inr (py_slot 1 Busy 0, pool_two)"
  by (simp add: begin_execution_def checkout_def idle_queue_def slot_key_def
        req_loop_def py_slot_def pool_one_def pool_two_def Let_def)


lemma reachable_pool_two: "reachable cfg0 pool_two"
proof -
  have "pool_step cfg0 pool_warm pool_one" using begin_7 by (rule step_begin)
  moreover have "pool_step cfg0 pool_one pool_two" using begin_8 by (rule step_begin)
  ultimately show ?thesis
    using reachable_pool_warm [of cfg0] unfolding reachable_def by auto
qed



text \<open>
  C8: in every reachable pool, the idle queue of every key has a length of at least
  zero, no slot is checked out to two callers at once (the checked-out slots have
  pairwise different identities, so a slot has one owner and runs one request), and a
  checked-out slot is in no idle queue.
\<close>

theorem pool_slots_exclusively_owned:
  assumes "reachable cfg p"
  shows "(\<forall>key. 0 \<le> int (length (idle_queue p key)))
       \<and> distinct (map (\<lambda>cb. slot_id (snd cb)) (busy_slots p))
       \<and> (\<forall>c1 s1 c2 s2. (c1, s1) \<in> set (busy_slots p) \<and> (c2, s2) \<in> set (busy_slots p)
             \<and> slot_id s1 = slot_id s2 \<longrightarrow> c1 = c2 \<and> s1 = s2)
       \<and> (\<forall>cb \<in> set (busy_slots p). slot_state (snd cb) = Busy \<and> slot_id (snd cb) \<notin> idle_ids p)
       \<and> distinct (map slot_id (idle_slots p))"
proof -
  have inv: "pool_inv p" using assms by (rule reachable_pool_inv)
  have d: "distinct (map (\<lambda>cb. slot_id (snd cb)) (busy_slots p))" by (rule pool_invD(2) [OF inv])
  have u: "c1 = c2 \<and> s1 = s2"
    if "(c1, s1) \<in> set (busy_slots p)" "(c2, s2) \<in> set (busy_slots p)" "slot_id s1 = slot_id s2"
    for c1 s1 c2 s2
  proof -
    have inj: "inj_on (\<lambda>cb. slot_id (snd cb)) (set (busy_slots p))"
      using d by (simp add: distinct_map)
    have "(c1, s1) = (c2, s2)"
      using inj_onD [OF inj, of "(c1, s1)" "(c2, s2)"] that by simp
    then show ?thesis by simp
  qed
  have b: "slot_state (snd cb) = Busy \<and> slot_id (snd cb) \<notin> idle_ids p" if "cb \<in> set (busy_slots p)" for cb
  proof -
    have "slot_id (snd cb) \<in> busy_ids p" using that by (simp add: busy_ids_def)
    then show ?thesis using pool_invD(4) [OF inv] pool_invD(9) [OF inv that] by blast
  qed
  have z: "\<forall>key. 0 \<le> int (length (idle_queue p key))" by simp
  show ?thesis
    using z d u b pool_invD(1) [OF inv] by blast
qed

theorem pool_slots_exclusively_owned_witness:
  "reachable cfg0 pool_two
   \<and> map fst (busy_slots pool_two) = [7, 8]
   \<and> map (\<lambda>cb. slot_id (snd cb)) (busy_slots pool_two) = [0, 1]
   \<and> idle_ids pool_two = {2}
   \<and> distinct (map (\<lambda>cb. slot_id (snd cb)) (busy_slots pool_two))
   \<and> distinct (map slot_id (idle_slots pool_two))
   \<and> busy_ids pool_two \<inter> idle_ids pool_two = {}"
proof -
  have e: "map fst (busy_slots pool_two) = [7, 8]"
    "map (\<lambda>cb. slot_id (snd cb)) (busy_slots pool_two) = [0, 1]"
    "idle_ids pool_two = {2}"
    by (simp_all add: pool_two_def py_slot_def idle_ids_def)
  from pool_slots_exclusively_owned [OF reachable_pool_two]
  have "distinct (map (\<lambda>cb. slot_id (snd cb)) (busy_slots pool_two))"
    and "distinct (map slot_id (idle_slots pool_two))"
    and "\<forall>cb \<in> set (busy_slots pool_two). slot_id (snd cb) \<notin> idle_ids pool_two"
    by blast+
  then show ?thesis
    using reachable_pool_two e unfolding busy_ids_def by blast
qed

end
